theory Spec2Isabelle
  imports Complex_Main "HOL-Library.AList" "HOL-Library.Sublist"
begin

section \<open>Decoded JSON values\<close>

text \<open>
  The fetch scripts work on what \<^verbatim>\<open>json.loads\<close> returns: \<^verbatim>\<open>None\<close>, \<^verbatim>\<open>bool\<close>, \<^verbatim>\<open>int\<close>,
  \<^verbatim>\<open>float\<close>, \<^verbatim>\<open>str\<close>, \<^verbatim>\<open>list\<close> and \<^verbatim>\<open>dict\<close>. Python's \<^verbatim>\<open>None\<close> is the decoded JSON
  \<^verbatim>\<open>null\<close>, so a function of the scripts that returns \<^verbatim>\<open>None\<close> returns \<open>JNull\<close> here.
  A \<^verbatim>\<open>dict\<close> is an association list in insertion order; \<open>wf_json\<close> states the invariant
  of a Python dict, that its keys are pairwise distinct. A \<^verbatim>\<open>str\<close> is a \<open>string\<close>, one
  \<open>char\<close> for each character that \<^verbatim>\<open>len\<close> counts. A finite \<^verbatim>\<open>float\<close> is represented by
  its exact value; \<^verbatim>\<open>json.loads\<close> also produces the two infinities and NaN.
\<close>

datatype pyfloat = Finite real | PosInf | NegInf | NaN

datatype json =
    JNull
  | JBool bool
  | JInt int
  | JFloat pyfloat
  | JStr string
  | JArr "json list"
  | JObj "(string \<times> json) list"

fun wf_json :: "json \<Rightarrow> bool"
  and wf_fields :: "(string \<times> json) list \<Rightarrow> bool"
  and wf_elems :: "json list \<Rightarrow> bool"
where
  "wf_json (JObj kvs) = (distinct (map fst kvs) \<and> wf_fields kvs)"
| "wf_json (JArr xs) = wf_elems xs"
| "wf_json v = True"
| "wf_fields [] = True"
| "wf_fields ((k, v) # rest) = (wf_json v \<and> wf_fields rest)"
| "wf_elems [] = True"
| "wf_elems (x # rest) = (wf_json x \<and> wf_elems rest)"

text \<open>\<open>null_free v\<close>: no \<^verbatim>\<open>null\<close> occurs in \<open>v\<close>, at any depth.\<close>

fun null_free :: "json \<Rightarrow> bool"
  and null_free_fields :: "(string \<times> json) list \<Rightarrow> bool"
  and null_free_elems :: "json list \<Rightarrow> bool"
where
  "null_free JNull = False"
| "null_free (JObj kvs) = null_free_fields kvs"
| "null_free (JArr xs) = null_free_elems xs"
| "null_free v = True"
| "null_free_fields [] = True"
| "null_free_fields ((k, v) # rest) = (null_free v \<and> null_free_fields rest)"
| "null_free_elems [] = True"
| "null_free_elems (x # rest) = (null_free x \<and> null_free_elems rest)"

text \<open>
  A transform of the scripts marks a dropped node by returning \<^verbatim>\<open>None\<close>; the
  specification-level transforms below return \<open>None :: json option\<close> for a dropped node.
\<close>

definition dropped_as_null :: "json option \<Rightarrow> json" where
  "dropped_as_null r = (case r of None \<Rightarrow> JNull | Some v \<Rightarrow> v)"

section \<open>Payload transforms\<close>

subsection \<open>\<^verbatim>\<open>prune_store_payload\<close> (fetch\_games.py)\<close>

definition MAX_STORE_STRING_LENGTH :: nat where
  "MAX_STORE_STRING_LENGTH = 600"

definition MAX_STORE_LIST_LENGTH :: nat where
  "MAX_STORE_LIST_LENGTH = 200"

text \<open>
  \<open>prune_items\<close> is the loop over \<^verbatim>\<open>value.items()\<close> with the dict \<^verbatim>\<open>pruned\<close> built so far,
  \<open>prune_elems\<close> the loop over the list with \<^verbatim>\<open>out\<close>. The assignment \<^verbatim>\<open>pruned[k] = cleaned\<close>
  is \<open>AList.update\<close>: it replaces the value of a present key in place and appends a new key.
\<close>

fun prune_store_payload :: "json \<Rightarrow> json"
  and prune_items :: "(string \<times> json) list \<Rightarrow> (string \<times> json) list \<Rightarrow> (string \<times> json) list"
  and prune_elems :: "json list \<Rightarrow> json list \<Rightarrow> json list"
where
  "prune_store_payload (JObj kvs) = JObj (prune_items kvs [])"
| "prune_store_payload (JArr xs) =
     (if length xs > MAX_STORE_LIST_LENGTH then JNull else JArr (prune_elems xs []))"
| "prune_store_payload (JStr s) =
     (if length s > MAX_STORE_STRING_LENGTH then JNull else JStr s)"
| "prune_store_payload v = v"
| "prune_items [] pruned = pruned"
| "prune_items ((k, v) # rest) pruned =
     (let cleaned = prune_store_payload v
      in prune_items rest (if cleaned \<noteq> JNull then AList.update k cleaned pruned else pruned))"
| "prune_elems [] out = out"
| "prune_elems (item # rest) out =
     (let cleaned = prune_store_payload item
      in prune_elems rest (if cleaned \<noteq> JNull then out @ [cleaned] else out))"

text \<open>
  The SizeCap transform as the specification words it, with the two caps as parameters:
  a string longer than the character cap is dropped, an array longer than the length cap
  is dropped entirely, objects recurse key by key and drop only the offending children.
\<close>

fun SizeCap :: "nat \<Rightarrow> nat \<Rightarrow> json \<Rightarrow> json option"
  and SizeCap_fields :: "nat \<Rightarrow> nat \<Rightarrow> (string \<times> json) list \<Rightarrow> (string \<times> json) list"
  and SizeCap_elems :: "nat \<Rightarrow> nat \<Rightarrow> json list \<Rightarrow> json list"
where
  "SizeCap scap lcap (JStr s) = (if length s > scap then None else Some (JStr s))"
| "SizeCap scap lcap (JArr xs) =
     (if length xs > lcap then None else Some (JArr (SizeCap_elems scap lcap xs)))"
| "SizeCap scap lcap (JObj kvs) = Some (JObj (SizeCap_fields scap lcap kvs))"
| "SizeCap scap lcap v = Some v"
| "SizeCap_fields scap lcap [] = []"
| "SizeCap_fields scap lcap ((k, v) # rest) =
     (case SizeCap scap lcap v of
        None \<Rightarrow> SizeCap_fields scap lcap rest
      | Some v' \<Rightarrow> (k, v') # SizeCap_fields scap lcap rest)"
| "SizeCap_elems scap lcap [] = []"
| "SizeCap_elems scap lcap (x # rest) =
     (case SizeCap scap lcap x of
        None \<Rightarrow> SizeCap_elems scap lcap rest
      | Some x' \<Rightarrow> x' # SizeCap_elems scap lcap rest)"

subsection \<open>\<^verbatim>\<open>drop_blacklisted_fields\<close> (fetch\_store\_raw.py)\<close>

text \<open>\<^verbatim>\<open>sep.join(parts)\<close>.\<close>

fun join :: "string \<Rightarrow> string list \<Rightarrow> string" where
  "join sep [] = []"
| "join sep [p] = p"
| "join sep (p # q # ps) = p @ sep @ join sep (q # ps)"

definition FIELD_BLACKLIST :: "string set" where
  "FIELD_BLACKLIST =
     {''data.detailed_description'', ''data.about_the_game'', ''data.short_description'',
      ''data.extended_description'', ''data.legal_notice''}"

text \<open>
  The test \<^verbatim>\<open>current_path and current_path in blacklist\<close> is false for the empty path.
  The keys of a decoded JSON object are strings, so \<^verbatim>\<open>str(key)\<close> is \<open>key\<close>.
\<close>

fun drop_blacklisted_fields :: "json \<Rightarrow> string set \<Rightarrow> string list \<Rightarrow> json"
  and drop_items ::
    "(string \<times> json) list \<Rightarrow> string set \<Rightarrow> string list \<Rightarrow> (string \<times> json) list
       \<Rightarrow> (string \<times> json) list"
  and drop_elems :: "json list \<Rightarrow> string set \<Rightarrow> string list \<Rightarrow> json list \<Rightarrow> json list"
where
  "drop_blacklisted_fields v blacklist path_parts =
     (let current_path = join ''.'' path_parts in
      if current_path \<noteq> [] \<and> current_path \<in> blacklist then JNull
      else case v of
        JObj kvs \<Rightarrow> JObj (drop_items kvs blacklist path_parts [])
      | JArr xs \<Rightarrow> JArr (drop_elems xs blacklist path_parts [])
      | _ \<Rightarrow> v)"
| "drop_items [] blacklist path_parts out = out"
| "drop_items ((key, child) # rest) blacklist path_parts out =
     (let child_value = drop_blacklisted_fields child blacklist (path_parts @ [key])
      in drop_items rest blacklist path_parts
           (if child_value \<noteq> JNull then AList.update key child_value out else out))"
| "drop_elems [] blacklist path_parts out_list = out_list"
| "drop_elems (child # rest) blacklist path_parts out_list =
     (let child_value = drop_blacklisted_fields child blacklist path_parts
      in drop_elems rest blacklist path_parts
           (if child_value \<noteq> JNull then out_list @ [child_value] else out_list))"

text \<open>
  The PathBlacklist transform as the specification words it: the walk carries the dotted
  key path from the payload root, a node whose path is a blacklist entry is dropped, and
  the elements of an array share the array's path.
\<close>

fun PathBlacklist :: "string set \<Rightarrow> string list \<Rightarrow> json \<Rightarrow> json option"
  and PathBlacklist_fields ::
    "string set \<Rightarrow> string list \<Rightarrow> (string \<times> json) list \<Rightarrow> (string \<times> json) list"
  and PathBlacklist_elems :: "string set \<Rightarrow> string list \<Rightarrow> json list \<Rightarrow> json list"
where
  "PathBlacklist bl path v =
     (if join ''.'' path \<in> bl then None
      else case v of
        JObj kvs \<Rightarrow> Some (JObj (PathBlacklist_fields bl path kvs))
      | JArr xs \<Rightarrow> Some (JArr (PathBlacklist_elems bl path xs))
      | _ \<Rightarrow> Some v)"
| "PathBlacklist_fields bl path [] = []"
| "PathBlacklist_fields bl path ((k, v) # rest) =
     (case PathBlacklist bl (path @ [k]) v of
        None \<Rightarrow> PathBlacklist_fields bl path rest
      | Some v' \<Rightarrow> (k, v') # PathBlacklist_fields bl path rest)"
| "PathBlacklist_elems bl path [] = []"
| "PathBlacklist_elems bl path (x # rest) =
     (case PathBlacklist bl path x of
        None \<Rightarrow> PathBlacklist_elems bl path rest
      | Some x' \<Rightarrow> x' # PathBlacklist_elems bl path rest)"

text \<open>\<open>without_null v\<close>: the value \<open>v\<close> with every \<^verbatim>\<open>null\<close> member and element taken out.\<close>

fun without_null :: "json \<Rightarrow> json"
  and without_null_fields :: "(string \<times> json) list \<Rightarrow> (string \<times> json) list"
  and without_null_elems :: "json list \<Rightarrow> json list"
where
  "without_null (JObj kvs) = JObj (without_null_fields kvs)"
| "without_null (JArr xs) = JArr (without_null_elems xs)"
| "without_null v = v"
| "without_null_fields [] = []"
| "without_null_fields ((k, v) # rest) =
     (if v = JNull then without_null_fields rest else (k, without_null v) # without_null_fields rest)"
| "without_null_elems [] = []"
| "without_null_elems (x # rest) =
     (if x = JNull then without_null_elems rest else without_null x # without_null_elems rest)"

section \<open>Python builtins used by the scripts\<close>

text \<open>Truth value of a decoded JSON value (\<^verbatim>\<open>if x\<close>, \<^verbatim>\<open>not x\<close>, \<^verbatim>\<open>x or y\<close>).\<close>

fun truthy :: "json \<Rightarrow> bool" where
  "truthy JNull = False"
| "truthy (JBool b) = b"
| "truthy (JInt i) = (i \<noteq> 0)"
| "truthy (JFloat (Finite r)) = (r \<noteq> 0)"
| "truthy (JFloat f) = True"
| "truthy (JStr s) = (s \<noteq> [])"
| "truthy (JArr xs) = (xs \<noteq> [])"
| "truthy (JObj kvs) = (kvs \<noteq> [])"

text \<open>\<^verbatim>\<open>d.get(key)\<close> on a dict: \<open>None\<close> here is the absent key.\<close>

definition dict_get :: "(string \<times> json) list \<Rightarrow> string \<Rightarrow> json option" where
  "dict_get kvs key = map_of kvs key"

text \<open>
  \<^verbatim>\<open>str(n)\<close> for an \<^verbatim>\<open>int\<close>: the decimal numeral, with a minus sign when negative.
  \<open>digit_char\<close> is only applied to a number below ten. The interpreter refuses to
  convert between \<^verbatim>\<open>int\<close> and \<^verbatim>\<open>str\<close> when the numeral has more than 4300 digits
  (\<^verbatim>\<open>ValueError\<close>); \<open>within_digit_limit i\<close> states that \<^verbatim>\<open>str(i)\<close> returns.
\<close>

definition digit_char :: "nat \<Rightarrow> char" where
  "digit_char d = ''0123456789'' ! d"

fun str_of_nat :: "nat \<Rightarrow> string" where
  "str_of_nat n =
     (if n < 10 then [digit_char n] else str_of_nat (n div 10) @ [digit_char (n mod 10)])"

declare str_of_nat.simps [simp del]

definition str_of_int :: "int \<Rightarrow> string" where
  "str_of_int i = (if i < 0 then CHR ''-'' # str_of_nat (nat (- i)) else str_of_nat (nat i))"

definition MAX_STR_DIGITS :: nat where
  "MAX_STR_DIGITS = 4300"

definition within_digit_limit :: "int \<Rightarrow> bool" where
  "within_digit_limit i = (length (str_of_nat (nat \<bar>i\<bar>)) \<le> MAX_STR_DIGITS)"

text \<open>
  \<^verbatim>\<open>int(s)\<close> for a \<^verbatim>\<open>str\<close>: whitespace at both ends is skipped, an optional sign follows,
  then decimal digits, where single underscores may separate digits; more than 4300
  digits are refused. \<open>None\<close> is the \<^verbatim>\<open>ValueError\<close>. The whitespace that \<^verbatim>\<open>int\<close> skips is
  not the one that \<^verbatim>\<open>str.strip\<close> removes: the conversion first replaces every whitespace
  character above U+007F by a space (of the characters that a \<open>char\<close> holds, U+0085 and
  U+00A0), and the parser then skips tab, line feed, vertical tab, form feed, carriage
  return and space only; on the separators U+001C to U+001F \<^verbatim>\<open>int\<close> raises.
\<close>

definition is_space :: "char \<Rightarrow> bool" where
  "is_space c =
     (c \<in> {CHR 0x09, CHR 0x0A, CHR 0x0B, CHR 0x0C, CHR 0x0D, CHR 0x20, CHR 0x85, CHR 0xA0})"

definition strip :: "string \<Rightarrow> string" where
  "strip s = rev (dropWhile is_space (rev (dropWhile is_space s)))"

definition digit_of :: "char \<Rightarrow> nat option" where
  "digit_of c =
     map_of [(CHR ''0'', 0), (CHR ''1'', 1), (CHR ''2'', 2), (CHR ''3'', 3), (CHR ''4'', 4),
             (CHR ''5'', 5), (CHR ''6'', 6), (CHR ''7'', 7), (CHR ''8'', 8), (CHR ''9'', 9)] c"

text \<open>\<open>parse_digits acc cs\<close>: the digits read so far have the value \<open>acc\<close>.\<close>

fun parse_digits :: "nat \<Rightarrow> string \<Rightarrow> nat option" where
  "parse_digits acc [] = Some acc"
| "parse_digits acc [c] =
     (case digit_of c of None \<Rightarrow> None | Some d \<Rightarrow> Some (10 * acc + d))"
| "parse_digits acc (c # c' # cs) =
     (if c = CHR ''_'' then
        (case digit_of c' of None \<Rightarrow> None | Some d \<Rightarrow> parse_digits (10 * acc + d) cs)
      else
        (case digit_of c of None \<Rightarrow> None | Some d \<Rightarrow> parse_digits (10 * acc + d) (c' # cs)))"

text \<open>
  \<open>parse_nat s\<close>: the numeral after the sign. The digits are the characters other than
  the underscores.
\<close>

definition parse_nat :: "string \<Rightarrow> nat option" where
  "parse_nat s =
     (case s of
        [] \<Rightarrow> None
      | c # cs \<Rightarrow>
          if length (filter (\<lambda>x. x \<noteq> CHR ''_'') s) > MAX_STR_DIGITS then None
          else (case digit_of c of None \<Rightarrow> None | Some d \<Rightarrow> parse_digits d cs))"

definition int_of_str :: "string \<Rightarrow> int option" where
  "int_of_str s =
     (case strip s of
        [] \<Rightarrow> None
      | c # cs \<Rightarrow>
          if c = CHR ''-'' then map_option (\<lambda>n. - int n) (parse_nat cs)
          else if c = CHR ''+'' then map_option int (parse_nat cs)
          else map_option int (parse_nat (c # cs)))"

text \<open>
  \<^verbatim>\<open>int(item)\<close> for a decoded JSON value; \<open>None\<close> is the exception that the callers catch
  with \<^verbatim>\<open>except Exception\<close>: \<^verbatim>\<open>TypeError\<close> for \<^verbatim>\<open>None\<close>, a list or a dict, \<^verbatim>\<open>ValueError\<close>
  for NaN and for a string that is no numeral, \<^verbatim>\<open>OverflowError\<close> for an infinity. A \<^verbatim>\<open>bool\<close>
  is an \<^verbatim>\<open>int\<close>; a \<^verbatim>\<open>float\<close> is truncated towards zero.
\<close>

fun py_int :: "json \<Rightarrow> int option" where
  "py_int (JInt i) = Some i"
| "py_int (JBool b) = Some (if b then 1 else 0)"
| "py_int (JFloat (Finite r)) = Some (if 0 \<le> r then \<lfloor>r\<rfloor> else \<lceil>r\<rceil>)"
| "py_int (JFloat f) = None"
| "py_int (JStr s) = int_of_str s"
| "py_int v = None"

section \<open>Exceptions and files\<close>

datatype exn =
    FileNotFoundError
  | JSONDecodeError
  | UnicodeDecodeError
  | UnicodeEncodeError
  | ValueError string
  | OverflowError
  | HTTPError int
  | URLError
  | RuntimeError string
  | MarkupError
  | OtherException

text \<open>
  The identifier-list file, read with \<^verbatim>\<open>json.loads(path.read_text(encoding="utf-8"))\<close>:
  absent, readable as the document \<open>Doc data\<close>, or such that reading or decoding raises.
\<close>

datatype list_file = NoFile | Unreadable exn | Doc json

text \<open>
  An output file is read as text, line by line. A line is represented by what
  \<^verbatim>\<open>line.strip()\<close> and \<^verbatim>\<open>json.loads\<close> make of it: blank, not parsable as JSON (which a
  truncated record is), or the decoded value. The file is opened with
  \<^verbatim>\<open>path.open("r", encoding="utf-8")\<close>, whose error handler is \<^verbatim>\<open>strict\<close>: for content
  that is not valid UTF-8 the iteration over the handle raises \<^verbatim>\<open>UnicodeDecodeError\<close>.
\<close>

datatype line = Blank | Unparsable | Parsed json

datatype jsonl_file = Missing | Undecodable | Lines "line list"

section \<open>Loading identifiers (fetch\_common.py)\<close>

text \<open>The loop \<^verbatim>\<open>for item in source\<close> of \<^verbatim>\<open>load_local_appids\<close>, with the list built so far.\<close>

fun coerce_items :: "json list \<Rightarrow> int list \<Rightarrow> int list" where
  "coerce_items [] appids = appids"
| "coerce_items (item # rest) appids =
     (case py_int item of
        Some i \<Rightarrow> coerce_items rest (appids @ [i])
      | None \<Rightarrow> coerce_items rest appids)"

definition load_local_appids :: "list_file \<Rightarrow> exn + int list" where
  "load_local_appids file =
     (case file of
        NoFile \<Rightarrow> Inl FileNotFoundError
      | Unreadable e \<Rightarrow> Inl e
      | Doc data \<Rightarrow>
          (case data of
             JObj kvs \<Rightarrow>
               (case dict_get kvs ''appids'' of
                  Some (JArr source) \<Rightarrow> Inr (coerce_items source [])
                | _ \<Rightarrow> Inl (ValueError ''appid list file must be {'appids': [...]} or a plain list''))
           | JArr source \<Rightarrow> Inr (coerce_items source [])
           | _ \<Rightarrow> Inl (ValueError ''appid list file must be {'appids': [...]} or a plain list'')))"

text \<open>
  The identifier list as the specification words it: the integer-coercible entries with
  duplicates removed, in the order of first occurrence.
\<close>

fun first_occurrences :: "int list \<Rightarrow> int list \<Rightarrow> int list" where
  "first_occurrences seen [] = []"
| "first_occurrences seen (x # xs) =
     (if x \<in> set seen then first_occurrences seen xs
      else x # first_occurrences (seen @ [x]) xs)"

definition load_identifiers_spec :: "json list \<Rightarrow> int list" where
  "load_identifiers_spec source = first_occurrences [] (List.map_filter py_int source)"

text \<open>
  \<^verbatim>\<open>apply_index_range\<close>: for \<open>0 \<le> start \<le> end\<close> the slice \<^verbatim>\<open>appids[start:end]\<close> holds the
  elements at the positions \<open>start, \<dots>, end - 1\<close> that exist.
\<close>

definition apply_index_range :: "int list \<Rightarrow> int \<Rightarrow> int \<Rightarrow> int \<Rightarrow> exn + int list" where
  "apply_index_range appids start_index end_index top_n =
     (if start_index < 0 then Inl (ValueError ''start-index must be >= 0'')
      else if end_index \<noteq> - 1 \<and> end_index < start_index
        then Inl (ValueError ''end-index must be -1 or >= start-index'')
      else if top_n < 0 then Inl (ValueError ''top-n must be >= 0'')
      else
        let sliced = (if end_index = - 1 then drop (nat start_index) appids
                      else take (nat end_index - nat start_index) (drop (nat start_index) appids))
        in Inr (if top_n > 0 then take (nat top_n) sliced else sliced))"

section \<open>The resume scan (fetch\_common.py)\<close>

text \<open>
  The loop of \<^verbatim>\<open>load_done_appids_from_jsonl\<close> from line number \<open>line_no\<close> on, with the set
  \<^verbatim>\<open>done\<close> and the line numbers of the warnings logged so far.
\<close>

fun scan_lines :: "nat \<Rightarrow> line list \<Rightarrow> int set \<Rightarrow> nat list \<Rightarrow> int set \<times> nat list" where
  "scan_lines line_no [] done warned = (done, warned)"
| "scan_lines line_no (Blank # rest) done warned = scan_lines (Suc line_no) rest done warned"
| "scan_lines line_no (Unparsable # rest) done warned =
     scan_lines (Suc line_no) rest done (warned @ [line_no])"
| "scan_lines line_no (Parsed obj # rest) done warned =
     (case obj of
        JObj [(key, v)] \<Rightarrow>
          (case int_of_str key of
             Some i \<Rightarrow> scan_lines (Suc line_no) rest (insert i done) warned
           | None \<Rightarrow> scan_lines (Suc line_no) rest done (warned @ [line_no]))
      | _ \<Rightarrow> scan_lines (Suc line_no) rest done warned)"

definition load_done_appids_from_jsonl :: "jsonl_file \<Rightarrow> exn + int set \<times> nat list" where
  "load_done_appids_from_jsonl file =
     (case file of
        Missing \<Rightarrow> Inr ({}, [])
      | Undecodable \<Rightarrow> Inl UnicodeDecodeError
      | Lines ls \<Rightarrow> Inr (scan_lines 1 ls {} []))"

text \<open>
  The identifier of a record line: the integer of the key of a single-key object.
  \<open>record_ids\<close> lists the identifiers of the records of a file, one entry for each record.
\<close>

fun record_id :: "line \<Rightarrow> int option" where
  "record_id (Parsed (JObj [(key, v)])) = int_of_str key"
| "record_id l = None"

definition record_ids :: "line list \<Rightarrow> int list" where
  "record_ids ls = List.map_filter record_id ls"

text \<open>A line that the scan skips with a warning: \<^verbatim>\<open>json.loads\<close> or \<^verbatim>\<open>int(key)\<close> raises on it.\<close>

fun malformed :: "line \<Rightarrow> bool" where
  "malformed Unparsable = True"
| "malformed (Parsed (JObj [(key, v)])) = (int_of_str key = None)"
| "malformed l = False"

text \<open>The value of a string of decimal digits, read from the left with the value \<open>acc\<close> so far.\<close>

definition digits_value :: "nat \<Rightarrow> string \<Rightarrow> nat" where
  "digits_value acc cs = foldl (\<lambda>a c. 10 * a + the (digit_of c)) acc cs"


section \<open>The rate limiter (fetch\_common.py, fetch\_games.py)\<close>

text \<open>
  The limiter works on floats. A clock reading of \<^verbatim>\<open>time.monotonic()\<close>, in seconds, is a
  finite float, represented by its exact value, and so far from the largest float that
  the differences below are finite; \<open>fl x\<close> is the float that the difference \<open>x\<close> of two
  floats is rounded to. The minimum interval is the float that the caller passes: the
  scripts pass \<^verbatim>\<open>args.interval\<close>, for which \<^verbatim>\<open>argparse\<close> accepts \<^verbatim>\<open>inf\<close> and \<^verbatim>\<open>nan\<close> as well.

  \<open>below d i\<close> is the test \<^verbatim>\<open>delta < self.min_interval\<close> and \<open>remaining fl i d\<close> the
  difference \<^verbatim>\<open>self.min_interval - delta\<close>, for a finite \<open>d\<close>.
\<close>

record RateLimiter =
  min_interval :: pyfloat
  last_ts :: real

definition new_RateLimiter :: "pyfloat \<Rightarrow> RateLimiter" where
  "new_RateLimiter i = \<lparr>min_interval = i, last_ts = 0\<rparr>"

definition below :: "real \<Rightarrow> pyfloat \<Rightarrow> bool" where
  "below d i = (case i of Finite x \<Rightarrow> d < x | PosInf \<Rightarrow> True | NegInf \<Rightarrow> False | NaN \<Rightarrow> False)"

definition remaining :: "(real \<Rightarrow> real) \<Rightarrow> pyfloat \<Rightarrow> real \<Rightarrow> pyfloat" where
  "remaining fl i d = (case i of Finite x \<Rightarrow> Finite (fl (x - d)) | other \<Rightarrow> other)"

text \<open>
  \<^verbatim>\<open>wait\<close>: \<open>now\<close> is the first clock reading and \<open>now'\<close> the second one, taken after the
  sleep; \<open>sleep_error\<close> is the exception, if any, of \<^verbatim>\<open>time.sleep(waited)\<close>, which raises
  \<^verbatim>\<open>OverflowError\<close> for a time of more than about \<open>9.2e9\<close> seconds. The result is the
  exception raised, or the value returned with the limiter after the call.
\<close>

definition wait ::
  "(real \<Rightarrow> real) \<Rightarrow> RateLimiter \<Rightarrow> real \<Rightarrow> exn option \<Rightarrow> real \<Rightarrow> exn + pyfloat \<times> RateLimiter"
where
  "wait fl self now sleep_error now' =
     (let delta = fl (now - last_ts self) in
      if below delta (min_interval self) then
        (case sleep_error of
           Some x \<Rightarrow> Inl x
         | None \<Rightarrow> Inr (remaining fl (min_interval self) delta, self\<lparr>last_ts := now'\<rparr>))
      else Inr (Finite 0, self\<lparr>last_ts := now'\<rparr>))"

text \<open>Rounding on the values of the examples, whose sums and differences are floats.\<close>

definition exact :: "real \<Rightarrow> real" where
  "exact x = x"

section \<open>The retrying fetcher (fetch\_common.py, fetch\_games.py)\<close>

text \<open>
  What one attempt of \<^verbatim>\<open>http_get_json\<close> meets, in the order of the statements of the loop
  body. An exception raised outside the \<^verbatim>\<open>try\<close>, or inside a handler, leaves the function.

  \<^item> \<open>wait_error\<close>: the exception, if any, of \<^verbatim>\<open>limiter.wait()\<close> (\<^verbatim>\<open>time.sleep\<close> raises
    \<^verbatim>\<open>OverflowError\<close> for a wait of more than about \<open>9.2e9\<close> seconds) and, in
    fetch\_games.py, of \<^verbatim>\<open>choose_limiter(url)\<close> before it.
  \<^item> \<open>url_error\<close>: the exception, if any, of the two statements before the \<^verbatim>\<open>try\<close> that
    take the url: the log line \<^verbatim>\<open>HTTP GET attempt ... -> {url}\<close> and \<^verbatim>\<open>Request(url, ...)\<close>,
    which raises \<^verbatim>\<open>ValueError\<close> for a url without a scheme.
  \<^item> \<open>resp\<close>: the outcome of \<^verbatim>\<open>urlopen\<close> and \<^verbatim>\<open>resp.read().decode\<close>: the body, with what
    \<^verbatim>\<open>json.loads\<close> makes of it, or the exception raised.
  \<^item> \<open>jitter\<close>, \<open>cooldown_jitter\<close>: the values of \<^verbatim>\<open>random.random()\<close> for the backoff sleep
    and for the cooldown floor.
  \<^item> \<open>head_log_error\<close>: the exception, if any, of \<^verbatim>\<open>log_warn(f"Body head: {body[:120]!r}")\<close>.
    The log functions print through \<^verbatim>\<open>rich\<close>, which reads square brackets in the message
    as markup and raises \<^verbatim>\<open>MarkupError\<close> on a closing tag that matches no open one, as in
    the body \<^verbatim>\<open>Too many connections [/b]\<close>.
  \<^item> \<open>sleep_error\<close>: the exception, if any, of \<^verbatim>\<open>time.sleep(sleep_for)\<close>, which raises
    \<^verbatim>\<open>OverflowError\<close> like the one of the limiter; the doubled backoff is that long from the
    35th attempt on.

  The other log lines hold numbers and the source name, which is one of the constants of
  the scripts (\<^verbatim>\<open>store\<close>, \<^verbatim>\<open>steamspy\<close>, and in fetch\_games.py what \<^verbatim>\<open>choose_limiter\<close>
  returns), and, for a fatal status, the url that the log line before the \<^verbatim>\<open>try\<close> has
  printed: they are taken to print. An exception of a log line or of \<^verbatim>\<open>time.sleep\<close> is
  none of \<^verbatim>\<open>urllib\<close>, so that no handler of the function catches it.
\<close>

datatype response = Body string "exn + json" | Raises exn

record attempt_env =
  wait_error :: "exn option"
  url_error :: "exn option"
  resp :: response
  jitter :: real
  cooldown_jitter :: real
  head_log_error :: "exn option"
  sleep_error :: "exn option"

text \<open>
  The outcome of one attempt: the function returns the payload, sleeps and goes on to
  the next attempt, or lets an exception propagate.

  The numbers of the function are floats. A float is represented by its exact value, and
  \<open>fl x\<close> is the float that the sum \<open>x\<close> of two floats is rounded to; the products by
  \<^verbatim>\<open>0.5\<close> and \<^verbatim>\<open>2.0\<close> and the doubling of the backoff are exact. \<open>cooldown\<close> is the constant of
  the floor for a body with the rate-limit message: \<^verbatim>\<open>60.0\<close> in fetch\_common.py and \<^verbatim>\<open>5.0\<close>
  in fetch\_games.py. The log line before the \<^verbatim>\<open>try\<close> formats the bound \<open>retries\<close>, which
  raises \<^verbatim>\<open>ValueError\<close> beyond the digit limit. An exception of \<^verbatim>\<open>json.loads\<close> other than
  \<^verbatim>\<open>JSONDecodeError\<close> reaches the outer handlers like one of \<^verbatim>\<open>urlopen\<close>.
\<close>

datatype verdict = Return json | Retry real | Raise exn

definition transient_status :: "int \<Rightarrow> bool" where
  "transient_status code = (code \<in> {429, 500, 502, 503, 504})"

definition digit_limit_error :: exn where
  "digit_limit_error =
     ValueError (''Exceeds the limit (4300 digits) for integer string conversion; '' @
                 ''use sys.set_int_max_str_digits() to increase the limit'')"

text \<open>\<^verbatim>\<open>sleep_for = backoff + random.random() * 0.5\<close>.\<close>

definition backoff_sleep :: "(real \<Rightarrow> real) \<Rightarrow> real \<Rightarrow> attempt_env \<Rightarrow> real" where
  "backoff_sleep fl backoff e = fl (backoff + jitter e * 0.5)"

text \<open>\<^verbatim>\<open>time.sleep(sleep_for)\<close>, \<^verbatim>\<open>backoff *= 2\<close> and the next round of the loop.\<close>

definition sleep_then_retry :: "attempt_env \<Rightarrow> real \<Rightarrow> verdict" where
  "sleep_then_retry e sleep_for =
     (case sleep_error e of Some x \<Rightarrow> Raise x | None \<Rightarrow> Retry sleep_for)"

text \<open>The handlers \<^verbatim>\<open>except HTTPError\<close> and \<^verbatim>\<open>except URLError\<close>.\<close>

definition on_exception :: "(real \<Rightarrow> real) \<Rightarrow> real \<Rightarrow> attempt_env \<Rightarrow> exn \<Rightarrow> verdict" where
  "on_exception fl backoff e x =
     (case x of
        HTTPError code \<Rightarrow>
          if transient_status code then sleep_then_retry e (backoff_sleep fl backoff e)
          else Raise x
      | URLError \<Rightarrow> sleep_then_retry e (backoff_sleep fl backoff e)
      | _ \<Rightarrow> Raise x)"

text \<open>The handler \<^verbatim>\<open>except JSONDecodeError\<close>, for the body \<open>body\<close>.\<close>

definition on_non_json ::
  "real \<Rightarrow> (real \<Rightarrow> real) \<Rightarrow> real \<Rightarrow> attempt_env \<Rightarrow> string \<Rightarrow> verdict"
where
  "on_non_json cooldown fl backoff e body =
     (let sleep_for = backoff_sleep fl backoff e;
          sleep_for' = (if sublist ''Too many connections'' body
                        then max sleep_for (fl (cooldown + cooldown_jitter e * 2.0))
                        else sleep_for)
      in case head_log_error e of
           Some x \<Rightarrow> Raise x
         | None \<Rightarrow> sleep_then_retry e sleep_for')"

definition attempt_verdict ::
  "real \<Rightarrow> (real \<Rightarrow> real) \<Rightarrow> int \<Rightarrow> real \<Rightarrow> attempt_env \<Rightarrow> verdict"
where
  "attempt_verdict cooldown fl retries backoff e =
     (case wait_error e of
        Some x \<Rightarrow> Raise x
      | None \<Rightarrow>
          if \<not> within_digit_limit retries then Raise digit_limit_error
          else
            (case url_error e of
               Some x \<Rightarrow> Raise x
             | None \<Rightarrow>
                 (case resp e of
                    Body body (Inr payload) \<Rightarrow> Return payload
                  | Body body (Inl x) \<Rightarrow>
                      if x = JSONDecodeError then on_non_json cooldown fl backoff e body
                      else on_exception fl backoff e x
                  | Raises x \<Rightarrow> on_exception fl backoff e x)))"

text \<open>
  The result of a fetch: the value returned or the exception raised, the backoff sleeps
  that were slept, in order, and the number of attempts made.
\<close>

record fetch_result =
  outcome :: "exn + json"
  sleeps :: "real list"
  attempts :: nat

text \<open>
  The loop \<^verbatim>\<open>for attempt in range(retries)\<close> from the attempt with index \<open>attempt\<close> on, with
  \<open>left\<close> attempts left; \<open>env k\<close> is what the attempt with index \<open>k\<close> meets. \<open>None\<close> is the
  end of the loop without a \<^verbatim>\<open>return\<close> or \<^verbatim>\<open>raise\<close>.
\<close>

fun retry_loop ::
  "real \<Rightarrow> (real \<Rightarrow> real) \<Rightarrow> int \<Rightarrow> (nat \<Rightarrow> attempt_env) \<Rightarrow> nat \<Rightarrow> nat \<Rightarrow> real \<Rightarrow> real list
     \<Rightarrow> (exn + json) option \<times> real list \<times> nat"
where
  "retry_loop cooldown fl retries env attempt 0 backoff slept = (None, slept, attempt)"
| "retry_loop cooldown fl retries env attempt (Suc left) backoff slept =
     (case attempt_verdict cooldown fl retries backoff (env attempt) of
        Return payload \<Rightarrow> (Some (Inr payload), slept, Suc attempt)
      | Raise x \<Rightarrow> (Some (Inl x), slept, Suc attempt)
      | Retry sleep_for \<Rightarrow>
          retry_loop cooldown fl retries env (Suc attempt) left (backoff * 2)
            (slept @ [sleep_for]))"

text \<open>
  The function: the loop, and after it \<^verbatim>\<open>raise RuntimeError(f"Failed after retries
  ({retries}): {url}")\<close>, whose message formats the bound.
\<close>

definition fetch_with ::
  "real \<Rightarrow> (real \<Rightarrow> real) \<Rightarrow> string \<Rightarrow> int \<Rightarrow> (nat \<Rightarrow> attempt_env) \<Rightarrow> fetch_result"
where
  "fetch_with cooldown fl url retries env =
     (case retry_loop cooldown fl retries env 0 (nat retries) 1.0 [] of
        (r, slept, n) \<Rightarrow>
          \<lparr>outcome =
             (case r of
                Some res \<Rightarrow> res
              | None \<Rightarrow>
                  if within_digit_limit retries
                  then Inl (RuntimeError
                         (''Failed after retries ('' @ str_of_int retries @ ''): '' @ url))
                  else Inl digit_limit_error),
           sleeps = slept, attempts = n\<rparr>)"

text \<open>
  \<^verbatim>\<open>http_get_json\<close> of fetch\_common.py. The limiter, the timeout and the source name enter
  the control flow only through what the attempts meet: the limiter through
  \<open>wait_error\<close>, the timeout through \<open>resp\<close>, and the source name appears in the log.
\<close>

definition http_get_json ::
  "(real \<Rightarrow> real) \<Rightarrow> string \<Rightarrow> int \<Rightarrow> (nat \<Rightarrow> attempt_env) \<Rightarrow> fetch_result"
where
  "http_get_json fl url retries env = fetch_with 60.0 fl url retries env"

text \<open>\<^verbatim>\<open>http_get_json\<close> of fetch\_games.py: the bound is the global \<^verbatim>\<open>RETRY_LIMIT\<close>.\<close>

definition games_http_get_json ::
  "(real \<Rightarrow> real) \<Rightarrow> string \<Rightarrow> int \<Rightarrow> (nat \<Rightarrow> attempt_env) \<Rightarrow> fetch_result"
where
  "games_http_get_json fl url RETRY_LIMIT env = fetch_with 5.0 fl url RETRY_LIMIT env"

text \<open>
  An attempt is calm when no statement outside \<^verbatim>\<open>urlopen\<close> and \<^verbatim>\<open>json.loads\<close> raises in
  it. A transient failure is one that the function answers with a sleep and the next
  attempt: a transient status, a \<^verbatim>\<open>URLError\<close>, or a body that is not JSON.
\<close>

definition calm :: "attempt_env \<Rightarrow> bool" where
  "calm e =
     (wait_error e = None \<and> url_error e = None \<and> head_log_error e = None \<and> sleep_error e = None)"

fun transient_failure :: "response \<Rightarrow> bool" where
  "transient_failure (Raises (HTTPError code)) = transient_status code"
| "transient_failure (Raises URLError) = True"
| "transient_failure (Body body (Inl JSONDecodeError)) = True"
| "transient_failure r = False"

text \<open>The sleep after a transient failure, at the backoff \<open>backoff\<close>.\<close>

definition sleep_after :: "real \<Rightarrow> (real \<Rightarrow> real) \<Rightarrow> real \<Rightarrow> attempt_env \<Rightarrow> real" where
  "sleep_after cooldown fl backoff e =
     (case resp e of
        Body body r \<Rightarrow>
          if sublist ''Too many connections'' body
          then max (backoff_sleep fl backoff e) (fl (cooldown + cooldown_jitter e * 2.0))
          else backoff_sleep fl backoff e
      | Raises x \<Rightarrow> backoff_sleep fl backoff e)"

text \<open>
  Environments for examples. The source answers every attempt with its rate-limit
  message; with the status 503; with 503 at the first attempt and 404 at the second; with
  503 at the first attempt and a JSON document at the second; with a page that is not
  JSON and holds a closing tag. The floats of the examples are sums that need no
  rounding (\<open>exact\<close>).
\<close>

definition store_url :: string where
  "store_url = ''https://store.steampowered.com/api/appdetails?appids=10&cc=us&l=english''"

definition calm_env :: "response \<Rightarrow> real \<Rightarrow> attempt_env" where
  "calm_env r j =
     \<lparr>wait_error = None, url_error = None, resp = r, jitter = j, cooldown_jitter = 0,
      head_log_error = None, sleep_error = None\<rparr>"

definition throttled_env :: "nat \<Rightarrow> attempt_env" where
  "throttled_env k = calm_env (Body ''Too many connections'' (Inl JSONDecodeError)) 0"

definition unavailable_env :: "nat \<Rightarrow> attempt_env" where
  "unavailable_env k = calm_env (Raises (HTTPError 503)) 0.5"

definition gone_env :: "nat \<Rightarrow> attempt_env" where
  "gone_env k = calm_env (Raises (HTTPError (if k = 0 then 503 else 404))) 0.5"

definition recovering_env :: "nat \<Rightarrow> attempt_env" where
  "recovering_env k =
     calm_env (if k = 0 then Raises (HTTPError 503) else Body ''{}'' (Inr (JObj []))) 0.5"

definition tagged_env :: "nat \<Rightarrow> attempt_env" where
  "tagged_env k =
     (calm_env (Body ''Too many connections [/b]'' (Inl JSONDecodeError)) 0)
       \<lparr>head_log_error := Some MarkupError\<rparr>"

section \<open>The fetch runs (fetch\_store\_raw.py, fetch\_steamspy\_raw.py)\<close>

text \<open>
  What a run takes from outside the scripts.

  \<^item> \<open>http w appid\<close> is the fetch for \<open>appid\<close>: the url is built and
    \<^verbatim>\<open>http_get_json(url, limiter, retries, timeout, source_name)\<close> is called, in the state
    \<open>w\<close> of the world (the network, the clock, the limiter); it gives the payload or the
    exception raised, and the next state.
  \<^item> \<open>repr_other\<close> is Python's \<^verbatim>\<open>str()\<close> on a decoded value that is not a \<^verbatim>\<open>str\<close>.
  \<^item> \<open>normalize_date\<close> is the function of that name of fetch\_common.py, which turns the
    raw date into a string through \<^verbatim>\<open>datetime\<close>, or raises (\<^verbatim>\<open>datetime.fromtimestamp\<close> on a
    number out of range); its result only fills the field \<^verbatim>\<open>releaseDate\<close> of a record.
  \<^item> \<open>startup_error\<close> is the exception, if any, of the log lines of \<^verbatim>\<open>main\<close> between the
    resume scan and the loop; they hold the path of the identifier list, the country
    code and the output path, on which \<^verbatim>\<open>rich\<close> may raise \<^verbatim>\<open>MarkupError\<close>.
  \<^item> \<open>write_error r\<close> is the exception, if any, of
    \<^verbatim>\<open>handle.write(json.dumps(record, ensure_ascii=False) + "\n")\<close> for the record \<open>r\<close>:
    \<^verbatim>\<open>UnicodeEncodeError\<close> when a string of the record holds a lone surrogate, which
    \<^verbatim>\<open>json.loads\<close> decodes from an escape and UTF-8 cannot encode. Nothing is written then.
  \<^item> \<open>err_log_error appid e\<close> is the exception, if any, of
    \<^verbatim>\<open>log_error(f"[ERR] {appid}: {exc}")\<close> for the exception \<open>e\<close>: \<^verbatim>\<open>MarkupError\<close> when the
    message of \<open>e\<close> holds a closing tag that matches no open one. The message of a
    \<^verbatim>\<open>MarkupError\<close> quotes the tag that \<^verbatim>\<open>rich\<close> stopped at.

  The log line of a skipped identifier and the log lines after the loop hold numbers, and
  the output path that a log line before the loop has printed: they are taken to print.
  Failures of the file system (creating the directory, opening the output, a full disk)
  are not modelled.
\<close>

record 'w runtime =
  http :: "'w \<Rightarrow> int \<Rightarrow> (exn + json) \<times> 'w"
  repr_other :: "json \<Rightarrow> string"
  normalize_date :: "json \<Rightarrow> exn + string"
  startup_error :: "exn option"
  write_error :: "json \<Rightarrow> exn option"
  err_log_error :: "int \<Rightarrow> exn \<Rightarrow> exn option"

definition py_str :: "'w runtime \<Rightarrow> json \<Rightarrow> string" where
  "py_str rt v = (case v of JStr s \<Rightarrow> s | _ \<Rightarrow> repr_other rt v)"

text \<open>\<^verbatim>\<open>str(d.get(key) or "")\<close>.\<close>

definition str_or_empty :: "'w runtime \<Rightarrow> (string \<times> json) list \<Rightarrow> string \<Rightarrow> string" where
  "str_or_empty rt d key =
     (case dict_get d key of
        Some v \<Rightarrow> if truthy v then py_str rt v else []
      | None \<Rightarrow> [])"

text \<open>The dict that both builders return, keyed by \<^verbatim>\<open>str(appid)\<close>.\<close>

definition record_of :: "int \<Rightarrow> string \<Rightarrow> string \<Rightarrow> json \<Rightarrow> json" where
  "record_of appid name release_date payload =
     JObj [(str_of_int appid,
            JObj [(''appId'', JInt appid), (''name'', JStr name),
                  (''releaseDate'', JStr release_date), (''payload'', payload)])]"

subsection \<open>The store builder (fetch\_store\_raw.py)\<close>

text \<open>
  \<^verbatim>\<open>fetch_store_meta\<close>. Its first statement evaluates \<^verbatim>\<open>str(appid)\<close>, which raises beyond
  the digit limit, before anything is fetched.
\<close>

definition fetch_store_meta :: "'w runtime \<Rightarrow> int \<Rightarrow> 'w \<Rightarrow> (exn + json) \<times> 'w" where
  "fetch_store_meta rt appid w =
     (if \<not> within_digit_limit appid then (Inl digit_limit_error, w)
      else case http rt w appid of
        (Inl e, w') \<Rightarrow> (Inl e, w')
      | (Inr payload, w') \<Rightarrow> (Inr (case payload of JObj kvs \<Rightarrow> payload | _ \<Rightarrow> JObj []), w'))"

text \<open>
  The part of \<^verbatim>\<open>build_store_record\<close> after the success test, for the dict \<open>store_one\<close>:
  the record, or the exception of \<^verbatim>\<open>normalize_date\<close>.
\<close>

definition store_record :: "'w runtime \<Rightarrow> int \<Rightarrow> (string \<times> json) list \<Rightarrow> exn + json" where
  "store_record rt appid store_one =
     (let payload = drop_blacklisted_fields (JObj store_one) FIELD_BLACKLIST [];
          data = (case payload of
                    JObj p \<Rightarrow> (case dict_get p ''data'' of Some d \<Rightarrow> d | None \<Rightarrow> JObj [])
                  | _ \<Rightarrow> JObj []);
          name = (case data of JObj d \<Rightarrow> str_or_empty rt d ''name'' | _ \<Rightarrow> []);
          release_raw =
            (case data of
               JObj d \<Rightarrow>
                 (case dict_get d ''release_date'' of
                    Some (JObj release) \<Rightarrow> str_or_empty rt release ''date''
                  | Some JNull \<Rightarrow> []
                  | Some release \<Rightarrow> py_str rt release
                  | None \<Rightarrow> [])
             | _ \<Rightarrow> [])
      in case normalize_date rt (JStr release_raw) of
           Inl e \<Rightarrow> Inl e
         | Inr release_date \<Rightarrow> Inr (record_of appid name release_date payload))"

text \<open>
  \<^verbatim>\<open>build_store_record\<close>: the record, \<open>JNull\<close> for the \<^verbatim>\<open>None\<close> it returns when the source
  reports no success, or the exception raised.
\<close>

definition build_store_record :: "'w runtime \<Rightarrow> int \<Rightarrow> 'w \<Rightarrow> (exn + json) \<times> 'w" where
  "build_store_record rt appid w =
     (case fetch_store_meta rt appid w of
        (Inl e, w') \<Rightarrow> (Inl e, w')
      | (Inr store_all, w') \<Rightarrow>
          (let store_one =
                 (case store_all of
                    JObj kvs \<Rightarrow>
                      (case dict_get kvs (str_of_int appid) of Some v \<Rightarrow> v | None \<Rightarrow> JObj [])
                  | _ \<Rightarrow> JObj [])
           in case store_one of
                JObj one \<Rightarrow>
                  (case dict_get one ''success'' of
                     Some flag \<Rightarrow>
                       if truthy flag then (store_record rt appid one, w')
                       else (Inr JNull, w')
                   | None \<Rightarrow> (Inr JNull, w'))
              | _ \<Rightarrow> (Inr JNull, w')))"

subsection \<open>The SteamSpy builder (fetch\_steamspy\_raw.py)\<close>

definition fetch_spy_details :: "'w runtime \<Rightarrow> int \<Rightarrow> 'w \<Rightarrow> (exn + json) \<times> 'w" where
  "fetch_spy_details rt appid w =
     (if \<not> within_digit_limit appid then (Inl digit_limit_error, w)
      else case http rt w appid of
        (Inl e, w') \<Rightarrow> (Inl e, w')
      | (Inr payload, w') \<Rightarrow> (Inr (case payload of JObj kvs \<Rightarrow> payload | _ \<Rightarrow> JObj []), w'))"

text \<open>
  \<^verbatim>\<open>build_spy_record\<close>; \<^verbatim>\<open>payload.get("release_date")\<close> is \<^verbatim>\<open>None\<close> for an absent key.
\<close>

definition build_spy_record :: "'w runtime \<Rightarrow> int \<Rightarrow> 'w \<Rightarrow> (exn + json) \<times> 'w" where
  "build_spy_record rt appid w =
     (case fetch_spy_details rt appid w of
        (Inl e, w') \<Rightarrow> (Inl e, w')
      | (Inr payload, w') \<Rightarrow>
          if \<not> truthy payload then (Inr JNull, w')
          else
            (case payload of
               JObj p \<Rightarrow>
                 (let name = str_or_empty rt p ''name'';
                      release_raw = (case dict_get p ''release_date'' of
                                       Some v \<Rightarrow> v | None \<Rightarrow> JNull)
                  in case normalize_date rt release_raw of
                       Inl e \<Rightarrow> (Inl e, w')
                     | Inr release_date \<Rightarrow>
                         (Inr (record_of appid name release_date payload), w'))
             | _ \<Rightarrow> (Inl OtherException, w')))"

subsection \<open>The loop and \<^verbatim>\<open>main\<close>\<close>

text \<open>
  The two scripts have the same \<^verbatim>\<open>main\<close> but for the record builder (and the texts of
  the log): \<open>build\<close> is \<^verbatim>\<open>build_store_record\<close> or \<^verbatim>\<open>build_spy_record\<close> with the settings of
  the run. The state of the loop is the records written so far and the three counters.
\<close>

type_synonym 'w builder = "int \<Rightarrow> 'w \<Rightarrow> (exn + json) \<times> 'w"

record run_state =
  written :: "json list"
  ok_count :: nat
  skip_count :: nat
  err_count :: nat

text \<open>
  The body of the \<^verbatim>\<open>try\<close> statement after the call of the builder, whose outcome is \<open>res\<close>:
  the state, and the exception that reaches \<^verbatim>\<open>except Exception\<close>, if any.
\<close>

definition try_body :: "'w runtime \<Rightarrow> run_state \<Rightarrow> exn + json \<Rightarrow> run_state \<times> exn option" where
  "try_body rt st res =
     (case res of
        Inl e \<Rightarrow> (st, Some e)
      | Inr r \<Rightarrow>
          if r = JNull then (st\<lparr>skip_count := skip_count st + 1\<rparr>, None)
          else
            (case write_error rt r of
               Some e \<Rightarrow> (st, Some e)
             | None \<Rightarrow> (st\<lparr>written := written st @ [r], ok_count := ok_count st + 1\<rparr>, None)))"

text \<open>
  The loop over the pending identifiers. The handler increments the counter and then
  logs the exception; an exception of that log line is raised inside the handler and
  leaves the loop and \<^verbatim>\<open>main\<close>. The result is that exception, if any, with the state and
  the world at the end.
\<close>

fun fetch_loop ::
  "'w runtime \<Rightarrow> 'w builder \<Rightarrow> int list \<Rightarrow> run_state \<Rightarrow> 'w \<Rightarrow> exn option \<times> run_state \<times> 'w"
where
  "fetch_loop rt build [] st w = (None, st, w)"
| "fetch_loop rt build (appid # rest) st w =
     (case build appid w of
        (res, w') \<Rightarrow>
          (case try_body rt st res of
             (st', None) \<Rightarrow> fetch_loop rt build rest st' w'
           | (st', Some e) \<Rightarrow>
               (case err_log_error rt appid e of
                  Some x \<Rightarrow> (Some x, st'\<lparr>err_count := err_count st' + 1\<rparr>, w')
                | None \<Rightarrow>
                    fetch_loop rt build rest (st'\<lparr>err_count := err_count st' + 1\<rparr>) w')))"

text \<open>
  The parsed arguments that \<^verbatim>\<open>main\<close> reads. \<open>nonpositive x\<close> is the test \<^verbatim>\<open>x <= 0\<close> on a
  float, which is false for NaN.
\<close>

definition nonpositive :: "pyfloat \<Rightarrow> bool" where
  "nonpositive x = (case x of Finite r \<Rightarrow> r \<le> 0 | NegInf \<Rightarrow> True | _ \<Rightarrow> False)"

record args =
  interval :: pyfloat
  max_retries :: int
  timeout :: int
  start_index :: int
  end_index :: int
  top_n :: int
  resume :: bool

text \<open>The lines that an output file holds when it is opened for appending.\<close>

fun lines_of :: "jsonl_file \<Rightarrow> line list" where
  "lines_of (Lines ls) = ls"
| "lines_of f = []"

text \<open>
  Appending to a file. \<open>terminated\<close> states that the existing content is empty or ends
  with a line separator. Otherwise the last line is open, and the first record written
  continues it: after a blank open line the line decodes to the record, and after any
  other text it is no JSON document (\<^verbatim>\<open>json.loads\<close> accepts no second value after a
  complete one, and an incomplete one stays incomplete, the record being complete).
\<close>

definition glue :: "line \<Rightarrow> json \<Rightarrow> line" where
  "glue l r = (if l = Blank then Parsed r else Unparsable)"

fun append_lines :: "line list \<Rightarrow> bool \<Rightarrow> json list \<Rightarrow> line list" where
  "append_lines ls terminated [] = ls"
| "append_lines ls terminated (r # rs) =
     (if terminated \<or> ls = [] then ls @ map Parsed (r # rs)
      else butlast ls @ [glue (last ls) r] @ map Parsed rs)"

record run_result =
  pending :: "int list"
  write_mode :: string
  final_state :: run_state
  raised :: "exn option"
  file_after :: "line list"

text \<open>
  \<^verbatim>\<open>main\<close>, from the parsed arguments, the identifier-list file and the file at the output
  path: an exception before the loop, or the identifiers to fetch, the mode the output
  was opened in, the state at the end of the loop, the exception that left the loop, if
  any, and the lines of the output file at the end.
\<close>

definition main ::
  "'w runtime \<Rightarrow> 'w builder \<Rightarrow> args \<Rightarrow> list_file \<Rightarrow> jsonl_file \<Rightarrow> bool \<Rightarrow> 'w
     \<Rightarrow> exn + run_result \<times> 'w"
where
  "main rt build a list_file out_file terminated w =
     (if nonpositive (interval a) then Inl (ValueError ''interval must be > 0'')
      else if max_retries a \<le> 0 then Inl (ValueError ''max-retries must be > 0'')
      else if timeout a \<le> 0 then Inl (ValueError ''timeout must be > 0'')
      else case load_local_appids list_file of
        Inl e \<Rightarrow> Inl e
      | Inr all_appids \<Rightarrow>
          (case apply_index_range all_appids (start_index a) (end_index a) (top_n a) of
             Inl e \<Rightarrow> Inl e
           | Inr appids \<Rightarrow>
               (case (if resume a then load_done_appids_from_jsonl out_file else Inr ({}, [])) of
                  Inl e \<Rightarrow> Inl e
                | Inr (done_appids, warned) \<Rightarrow>
                    (let appids' = (if done_appids \<noteq> {}
                                    then filter (\<lambda>appid. appid \<notin> done_appids) appids
                                    else appids);
                         mode = (if resume a then ''a'' else ''w'');
                         existing = (if resume a then lines_of out_file else []);
                         start = \<lparr>written = [], ok_count = 0, skip_count = 0, err_count = 0\<rparr>
                     in case startup_error rt of
                          Some e \<Rightarrow> Inl e
                        | None \<Rightarrow>
                            (case fetch_loop rt build appids' start w of
                               (x, st, w') \<Rightarrow>
                                 Inr (\<lparr>pending = appids', write_mode = mode, final_state = st,
                                       raised = x,
                                       file_after = append_lines existing terminated (written st)\<rparr>,
                                      w'))))))"

definition store_main ::
  "'w runtime \<Rightarrow> args \<Rightarrow> list_file \<Rightarrow> jsonl_file \<Rightarrow> bool \<Rightarrow> 'w \<Rightarrow> exn + run_result \<times> 'w"
where
  "store_main rt = main rt (build_store_record rt)"

definition spy_main ::
  "'w runtime \<Rightarrow> args \<Rightarrow> list_file \<Rightarrow> jsonl_file \<Rightarrow> bool \<Rightarrow> 'w \<Rightarrow> exn + run_result \<times> 'w"
where
  "spy_main rt = main rt (build_spy_record rt)"

text \<open>
  A world that lists the fetches: \<open>traced h\<close> answers as \<open>h\<close> does and appends the
  identifier to the list of the identifiers fetched so far.
\<close>

definition traced ::
  "('w \<Rightarrow> int \<Rightarrow> (exn + json) \<times> 'w) \<Rightarrow> 'w \<times> int list \<Rightarrow> int
     \<Rightarrow> (exn + json) \<times> 'w \<times> int list"
where
  "traced h wc appid =
     (case wc of (w, fetched) \<Rightarrow>
        (case h w appid of (res, w') \<Rightarrow> (res, w', fetched @ [appid])))"

text \<open>
  The scenario of the specification: the source answers success for 10 and 30 and a
  failure flag for 20. For 40 it answers with a page that is not JSON and holds a closing
  tag, on which \<^verbatim>\<open>http_get_json\<close> raises \<^verbatim>\<open>MarkupError\<close>; for any other identifier the host
  does not resolve, and \<^verbatim>\<open>http_get_json\<close> fails after its two attempts. The date of the
  scenario is in the form that \<^verbatim>\<open>normalize_date\<close> returns unchanged. The messages of the
  exceptions of the scenario hold no tag but the one of \<^verbatim>\<open>MarkupError\<close>, and its records no
  surrogate.
\<close>

definition scenario_source :: "unit \<Rightarrow> int \<Rightarrow> (exn + json) \<times> unit" where
  "scenario_source w appid =
     (if appid = 10 then
        (Inr (JObj [(''10'', JObj [(''success'', JBool True),
                (''data'', JObj [(''name'', JStr ''Ten''), (''about_the_game'', JStr ''text''),
                                 (''release_date'', JObj [(''date'', JStr ''2007-08-21'')])])])]),
         w)
      else if appid = 20 then (Inr (JObj [(''20'', JObj [(''success'', JBool False)])]), w)
      else if appid = 30 then
        (Inr (JObj [(''30'', JObj [(''success'', JBool True),
                (''data'', JObj [(''name'', JStr ''Thirty'')])])]),
         w)
      else if appid = 40 then (Inl MarkupError, w)
      else
        (Inl (RuntimeError
           (''Failed after retries (2): https://store.steampowered.com/api/appdetails?appids=''
              @ str_of_int appid @ ''&cc=us&l=english'')),
         w))"

definition scenario_runtime :: "(unit \<times> int list) runtime" where
  "scenario_runtime =
     \<lparr>http = traced scenario_source, repr_other = (\<lambda>v. []),
      normalize_date = (\<lambda>v. case v of JStr s \<Rightarrow> Inr s | _ \<Rightarrow> Inr []),
      startup_error = None,
      write_error = (\<lambda>r. None),
      err_log_error = (\<lambda>appid e. if e = MarkupError then Some MarkupError else None)\<rparr>"

definition scenario_args :: "bool \<Rightarrow> args" where
  "scenario_args r =
     \<lparr>interval = Finite 2.5, max_retries = 2, timeout = 25, start_index = 0, end_index = - 1,
      top_n = 0, resume = r\<rparr>"

text \<open>The identifiers of the records in the output file at the end of a run.\<close>

definition result_ids :: "exn + run_result \<times> 'w \<Rightarrow> exn + int list" where
  "result_ids res =
     (case res of
        Inl e \<Rightarrow> Inl e
      | Inr (r, w) \<Rightarrow> Inr (record_ids (file_after r)))"

section \<open>Properties of the payload transforms\<close>

lemma update_fresh: "k \<notin> fst ` set al \<Longrightarrow> AList.update k v al = al @ [(k, v)]"
  by (induction al) auto

lemma null_free_not_null: "null_free v \<Longrightarrow> v \<noteq> JNull"
  by (cases v) auto

lemma null_free_fields_append:
  "null_free_fields (xs @ ys) = (null_free_fields xs \<and> null_free_fields ys)"
  by (induction xs) auto

lemma null_free_elems_append:
  "null_free_elems (xs @ ys) = (null_free_elems xs \<and> null_free_elems ys)"
  by (induction xs) auto

lemma null_free_fields_update:
  "null_free w \<Longrightarrow> null_free_fields al \<Longrightarrow> null_free_fields (AList.update k w al)"
  by (induction al) auto

lemma SizeCap_null_free:
  "null_free v \<Longrightarrow> SizeCap sc lc v = Some w \<Longrightarrow> w \<noteq> JNull"
  by (cases v) (auto split: if_splits)

text \<open>
  On a decoded document without \<^verbatim>\<open>null\<close> the function is the SizeCap transform with the
  caps 600 and 200; the root that SizeCap drops is returned as \<^verbatim>\<open>None\<close>.
\<close>

lemma prune_agrees_SizeCap:
  "wf_json v \<Longrightarrow> null_free v \<Longrightarrow>
     prune_store_payload v = dropped_as_null (SizeCap MAX_STORE_STRING_LENGTH MAX_STORE_LIST_LENGTH v)"
  "wf_fields kvs \<Longrightarrow> null_free_fields kvs \<Longrightarrow> distinct (map fst kvs) \<Longrightarrow>
     fst ` set kvs \<inter> fst ` set acc = {} \<Longrightarrow>
     prune_items kvs acc = acc @ SizeCap_fields MAX_STORE_STRING_LENGTH MAX_STORE_LIST_LENGTH kvs"
  "wf_elems xs \<Longrightarrow> null_free_elems xs \<Longrightarrow>
     prune_elems xs out = out @ SizeCap_elems MAX_STORE_STRING_LENGTH MAX_STORE_LIST_LENGTH xs"
proof (induction v and kvs acc and xs out rule: prune_store_payload_prune_items_prune_elems.induct)
  case (1 kvs)
  then show ?case by (simp add: dropped_as_null_def)
next
  case (2 xs)
  then show ?case by (simp add: dropped_as_null_def)
next
  case (6 k v rest pruned)
  let ?S = "SizeCap MAX_STORE_STRING_LENGTH MAX_STORE_LIST_LENGTH"
  have wf: "wf_json v" "null_free v" "wf_fields rest" "null_free_fields rest"
      "distinct (map fst rest)" "k \<notin> fst ` set rest"
    and fresh: "k \<notin> fst ` set pruned" "fst ` set rest \<inter> fst ` set pruned = {}"
    using "6.prems" by auto
  have cl: "prune_store_payload v = dropped_as_null (?S v)"
    using "6.IH"(1) wf by simp
  show ?case
  proof (cases "?S v")
    case None
    then have "prune_store_payload v = JNull"
      using cl by (simp add: dropped_as_null_def)
    then show ?thesis
      using "6.IH"(2)[OF refl wf(3,4,5)] fresh None by simp
  next
    case (Some w)
    then have w: "prune_store_payload v = w" "w \<noteq> JNull"
      using cl SizeCap_null_free[OF wf(2) Some] by (auto simp: dropped_as_null_def)
    have "fst ` set rest \<inter> fst ` set (AList.update k w pruned) = {}"
      using fresh wf(6) by (auto simp: dom_update)
    then show ?thesis
      using "6.IH"(2)[OF refl wf(3,4,5)] w Some fresh(1) by (simp add: update_fresh)
  qed
next
  case (8 item rest out)
  let ?S = "SizeCap MAX_STORE_STRING_LENGTH MAX_STORE_LIST_LENGTH"
  have nf: "null_free item" using 8 by simp
  have cl: "prune_store_payload item = dropped_as_null (?S item)"
    using 8 by simp
  show ?case
  proof (cases "?S item")
    case None
    then show ?thesis using 8 cl by (simp add: dropped_as_null_def)
  next
    case (Some w)
    then have "w \<noteq> JNull" using SizeCap_null_free[OF nf Some] by simp
    then show ?thesis using 8 cl Some by (simp add: dropped_as_null_def)
  qed
qed (simp_all add: dropped_as_null_def)

lemma prune_null_free:
  "prune_store_payload v = JNull \<or> null_free (prune_store_payload v)"
  "null_free_fields acc \<Longrightarrow> null_free_fields (prune_items kvs acc)"
  "null_free_elems out \<Longrightarrow> null_free_elems (prune_elems xs out)"
proof (induction v and kvs acc and xs out rule: prune_store_payload_prune_items_prune_elems.induct)
  case (6 k v rest pruned)
  then show ?case
    by (auto simp: Let_def null_free_fields_update)
next
  case (8 item rest out)
  then show ?case
    by (auto simp: Let_def null_free_elems_append)
qed simp_all

lemma drop_null_free:
  "drop_blacklisted_fields v bl path = JNull \<or> null_free (drop_blacklisted_fields v bl path)"
  "null_free_fields acc \<Longrightarrow> null_free_fields (drop_items kvs bl path acc)"
  "null_free_elems out \<Longrightarrow> null_free_elems (drop_elems xs bl path out)"
proof (induction v bl path and kvs bl path acc and xs bl path out
    rule: drop_blacklisted_fields_drop_items_drop_elems.induct)
  case (1 v blacklist path_parts)
  then show ?case by (cases v) (auto simp: Let_def)
next
  case (3 key child rest blacklist path_parts out)
  then show ?case
    by (auto simp: Let_def null_free_fields_update simp del: drop_blacklisted_fields.simps)
next
  case (5 child rest blacklist path_parts out_list)
  then show ?case
    by (auto simp: Let_def null_free_elems_append simp del: drop_blacklisted_fields.simps)
qed simp_all

lemma without_null_not_null: "v \<noteq> JNull \<Longrightarrow> without_null v \<noteq> JNull"
  by (cases v) auto

lemma PathBlacklist_not_null: "v \<noteq> JNull \<Longrightarrow> PathBlacklist bl path v = Some w \<Longrightarrow> w \<noteq> JNull"
  by (cases v) (auto split: if_splits)

text \<open>
  What \<^verbatim>\<open>drop_blacklisted_fields\<close> computes, on every decoded document: the PathBlacklist
  transform of the document without its \<^verbatim>\<open>null\<close> members and elements, for the blacklist
  without the empty path (the guard \<^verbatim>\<open>current_path and ...\<close> exempts the empty path, which
  is no entry of \<^verbatim>\<open>FIELD_BLACKLIST\<close>). So every node at a blacklisted path is removed,
  whatever the document holds, and what else is removed is \<^verbatim>\<open>null\<close>.
\<close>

lemma drop_agrees_PathBlacklist:
  "wf_json v \<Longrightarrow>
     drop_blacklisted_fields v bl path
       = dropped_as_null (PathBlacklist (bl - {[]}) path (without_null v))"
  "wf_fields kvs \<Longrightarrow> distinct (map fst kvs) \<Longrightarrow>
     fst ` set kvs \<inter> fst ` set acc = {} \<Longrightarrow>
     drop_items kvs bl path acc
       = acc @ PathBlacklist_fields (bl - {[]}) path (without_null_fields kvs)"
  "wf_elems xs \<Longrightarrow>
     drop_elems xs bl path out
       = out @ PathBlacklist_elems (bl - {[]}) path (without_null_elems xs)"
proof (induction v bl path and kvs bl path acc and xs bl path out
    rule: drop_blacklisted_fields_drop_items_drop_elems.induct)
  case (1 v blacklist path_parts)
  show ?case
  proof (cases "join ''.'' path_parts \<noteq> [] \<and> join ''.'' path_parts \<in> blacklist")
    case True
    then show ?thesis by (simp add: dropped_as_null_def)
  next
    case False
    then show ?thesis
      using 1 by (cases v) (auto simp: dropped_as_null_def Let_def)
  qed
next
  case (3 key child rest blacklist path_parts out)
  let ?S = "PathBlacklist (blacklist - {[]}) (path_parts @ [key])"
  have wf: "wf_json child" "wf_fields rest" "distinct (map fst rest)" "key \<notin> fst ` set rest"
    and fresh: "key \<notin> fst ` set out" "fst ` set rest \<inter> fst ` set out = {}"
    using "3.prems" by auto
  have cl: "drop_blacklisted_fields child blacklist (path_parts @ [key])
              = dropped_as_null (?S (without_null child))"
    using "3.IH"(1) wf by simp
  show ?case
  proof (cases "child = JNull")
    case True
    then have "drop_blacklisted_fields child blacklist (path_parts @ [key]) = JNull"
      by (simp add: Let_def)
    then show ?thesis
      using "3.IH"(2)[OF refl wf(2,3)] fresh True
      by (simp del: drop_blacklisted_fields.simps PathBlacklist.simps)
  next
    case False
    note nn = without_null_not_null[OF False]
    show ?thesis
    proof (cases "?S (without_null child)")
      case None
      then have "drop_blacklisted_fields child blacklist (path_parts @ [key]) = JNull"
        using cl by (simp add: dropped_as_null_def)
      then show ?thesis
        using "3.IH"(2)[OF refl wf(2,3)] fresh None False
        by (simp del: drop_blacklisted_fields.simps PathBlacklist.simps)
    next
      case (Some w)
      then have w: "drop_blacklisted_fields child blacklist (path_parts @ [key]) = w" "w \<noteq> JNull"
        using cl PathBlacklist_not_null[OF nn Some] by (auto simp: dropped_as_null_def)
      have "fst ` set rest \<inter> fst ` set (AList.update key w out) = {}"
        using fresh wf(4) by (auto simp: dom_update)
      then show ?thesis
        using "3.IH"(2)[OF refl wf(2,3)] w Some fresh(1) False
        by (simp add: update_fresh del: drop_blacklisted_fields.simps PathBlacklist.simps)
    qed
  qed
next
  case (5 child rest blacklist path_parts out_list)
  let ?S = "PathBlacklist (blacklist - {[]}) path_parts"
  have cl: "drop_blacklisted_fields child blacklist path_parts
              = dropped_as_null (?S (without_null child))"
    using 5 by simp
  show ?case
  proof (cases "child = JNull")
    case True
    then have "drop_blacklisted_fields child blacklist path_parts = JNull"
      by (simp add: Let_def)
    then show ?thesis
      using 5 True by (simp del: drop_blacklisted_fields.simps PathBlacklist.simps)
  next
    case False
    note nn = without_null_not_null[OF False]
    show ?thesis
    proof (cases "?S (without_null child)")
      case None
      then show ?thesis
        using 5 cl False
        by (simp add: dropped_as_null_def del: drop_blacklisted_fields.simps PathBlacklist.simps)
    next
      case (Some w)
      then have "w \<noteq> JNull" using PathBlacklist_not_null[OF nn Some] by simp
      then show ?thesis
        using 5 cl Some False
        by (simp add: dropped_as_null_def del: drop_blacklisted_fields.simps PathBlacklist.simps)
    qed
  qed
qed simp_all

lemma without_null_null_free:
  "null_free v \<Longrightarrow> without_null v = v"
  "null_free_fields kvs \<Longrightarrow> without_null_fields kvs = kvs"
  "null_free_elems xs \<Longrightarrow> without_null_elems xs = xs"
  by (induction v and kvs and xs rule: null_free_null_free_fields_null_free_elems.induct) auto

lemma drop_FIELD_BLACKLIST:
  assumes "wf_json v"
  shows "drop_blacklisted_fields v FIELD_BLACKLIST []
           = dropped_as_null (PathBlacklist FIELD_BLACKLIST [] (without_null v))"
proof -
  have "FIELD_BLACKLIST - {[]} = FIELD_BLACKLIST" by (auto simp: FIELD_BLACKLIST_def)
  then show ?thesis using drop_agrees_PathBlacklist(1)[OF assms, of FIELD_BLACKLIST "[]"] by simp
qed

text \<open>
  Claim C8 (SizeCap, \<^verbatim>\<open>prune_store_payload\<close>), evaluated at an object with a \<^verbatim>\<open>null\<close>
  field: the field \<^verbatim>\<open>website\<close> is neither an overlong string nor an overlong array, the
  SizeCap transform of the specification keeps it, and \<^verbatim>\<open>prune_store_payload\<close> omits its
  key. A string of exactly 600 characters is kept and one of 601 characters loses its key,
  as the claim says.
\<close>

theorem prune_store_payload_null_field:
  "prune_store_payload (JObj [(''website'', JNull), (''name'', JStr ''y'')])
     = JObj [(''name'', JStr ''y'')]
   \<and> dropped_as_null (SizeCap MAX_STORE_STRING_LENGTH MAX_STORE_LIST_LENGTH
         (JObj [(''website'', JNull), (''name'', JStr ''y'')]))
     = JObj [(''website'', JNull), (''name'', JStr ''y'')]
   \<and> prune_store_payload (JObj [(''k'', JStr (replicate 600 CHR ''a''))])
     = JObj [(''k'', JStr (replicate 600 CHR ''a''))]
   \<and> prune_store_payload (JObj [(''k'', JStr (replicate 601 CHR ''a''))]) = JObj []"
  by (simp add: dropped_as_null_def MAX_STORE_STRING_LENGTH_def)

text \<open>
  Claim C9 (PathBlacklist, \<^verbatim>\<open>drop_blacklisted_fields\<close>), evaluated at an object with a
  \<^verbatim>\<open>null\<close> field, for the blacklist of the script: the dotted path \<^verbatim>\<open>website\<close> is no member
  of the blacklist, the PathBlacklist transform of the specification keeps the field, and
  \<^verbatim>\<open>drop_blacklisted_fields\<close> omits its key. On the example of the claim the output is the
  one that the claim gives.
\<close>

theorem drop_blacklisted_fields_null_field:
  "drop_blacklisted_fields (JObj [(''website'', JNull), (''name'', JStr ''y'')])
       FIELD_BLACKLIST []
     = JObj [(''name'', JStr ''y'')]
   \<and> dropped_as_null (PathBlacklist FIELD_BLACKLIST []
         (JObj [(''website'', JNull), (''name'', JStr ''y'')]))
     = JObj [(''website'', JNull), (''name'', JStr ''y'')]
   \<and> drop_blacklisted_fields
       (JObj [(''data'', JObj [(''tags'', JArr [JNull, JInt 1]), (''legal_notice'', JStr ''x'')])])
       FIELD_BLACKLIST []
     = JObj [(''data'', JObj [(''tags'', JArr [JInt 1])])]
   \<and> drop_blacklisted_fields
       (JObj [(''data'', JObj [(''about_the_game'', JStr ''x''), (''name'', JStr ''y'')])])
       {''data.about_the_game''} []
     = JObj [(''data'', JObj [(''name'', JStr ''y'')])]"
  by (simp add: dropped_as_null_def FIELD_BLACKLIST_def)

text \<open>
  Claim C10: both payload transforms remove every JSON \<^verbatim>\<open>null\<close> inside the structure,
  also where it is neither overlong nor blacklisted: the result is the marker \<^verbatim>\<open>None\<close>
  itself or contains no \<^verbatim>\<open>null\<close> at any depth, an object key whose value is \<^verbatim>\<open>null\<close> is
  omitted from the output object, and a \<^verbatim>\<open>null\<close> array element is removed from the
  output array.
\<close>

theorem transforms_remove_null:
  "(prune_store_payload v = JNull \<or> null_free (prune_store_payload v))
   \<and> (drop_blacklisted_fields v bl path = JNull
        \<or> null_free (drop_blacklisted_fields v bl path))
   \<and> prune_store_payload (JObj [(k, JNull)]) = JObj []
   \<and> prune_store_payload (JArr [JNull, JInt n]) = JArr [JInt n]
   \<and> drop_blacklisted_fields (JObj [(k, JNull)]) bl [] = JObj []
   \<and> drop_blacklisted_fields (JArr [JNull, JInt n]) bl [] = JArr [JInt n]"
  using prune_null_free(1)[of v] drop_null_free(1)[of v bl path]
  by (simp add: MAX_STORE_LIST_LENGTH_def)

section \<open>Decimal numerals\<close>

lemma digit_cases:
  "d < 10 \<Longrightarrow> d = 0 \<or> d = 1 \<or> d = 2 \<or> d = 3 \<or> d = 4 \<or> d = 5 \<or> d = 6 \<or> d = 7 \<or> d = 8 \<or> d = (9::nat)"
  by arith

lemma digit_of_digit_char: "d < 10 \<Longrightarrow> digit_of (digit_char d) = Some d"
  using digit_cases[of d] by (auto simp: digit_of_def digit_char_def)

lemma digit_of_underscore: "digit_of CHR ''_'' = None"
  by (simp add: digit_of_def)

lemma digit_of_plain:
  "digit_of c = Some d \<Longrightarrow> \<not> is_space c \<and> c \<noteq> CHR ''-'' \<and> c \<noteq> CHR ''+''"
  by (auto simp: digit_of_def is_space_def split: if_splits)

lemma parse_digits_plain:
  "\<forall>c \<in> set cs. digit_of c \<noteq> None \<Longrightarrow> parse_digits acc cs = Some (digits_value acc cs)"
proof (induction acc cs rule: parse_digits.induct)
  case (1 acc)
  then show ?case by (simp add: digits_value_def)
next
  case (2 acc c)
  then show ?case by (auto simp: digits_value_def)
next
  case (3 acc c c' cs)
  from "3.prems" obtain d where dc: "digit_of c = Some d" by auto
  have nus: "c \<noteq> CHR ''_''" using dc digit_of_underscore by auto
  have rest: "\<forall>x \<in> set (c' # cs). digit_of x \<noteq> None" using "3.prems" by simp
  have "parse_digits (10 * acc + d) (c' # cs) = Some (digits_value (10 * acc + d) (c' # cs))"
    by (rule "3.IH"(2)[OF nus dc rest])
  then show ?case using nus dc by (simp add: digits_value_def)
qed

lemma str_of_nat_unfold:
  "str_of_nat n = (if n < 10 then [digit_char n] else str_of_nat (n div 10) @ [digit_char (n mod 10)])"
  by (rule str_of_nat.simps)

lemma str_of_nat_digits: "\<forall>c \<in> set (str_of_nat n). digit_of c \<noteq> None"
proof (induction n rule: str_of_nat.induct)
  case (1 n)
  show ?case
  proof (cases "n < 10")
    case True
    then have "str_of_nat n = [digit_char n]" using str_of_nat_unfold[of n] by simp
    then show ?thesis using True by (simp add: digit_of_digit_char)
  next
    case False
    have m: "digit_of (digit_char (n mod 10)) = Some (n mod 10)"
      by (rule digit_of_digit_char) simp
    have "str_of_nat n = str_of_nat (n div 10) @ [digit_char (n mod 10)]"
      using False str_of_nat_unfold[of n] by simp
    then show ?thesis using 1 False m by simp
  qed
qed

lemma digits_value_append:
  "digits_value acc (xs @ [c]) = 10 * digits_value acc xs + the (digit_of c)"
  by (simp add: digits_value_def)

lemma str_of_nat_value: "digits_value 0 (str_of_nat n) = n"
proof (induction n rule: str_of_nat.induct)
  case (1 n)
  show ?case
  proof (cases "n < 10")
    case True
    then have "str_of_nat n = [digit_char n]" using str_of_nat_unfold[of n] by simp
    then show ?thesis using True by (simp add: digits_value_def digit_of_digit_char)
  next
    case False
    have m: "digit_of (digit_char (n mod 10)) = Some (n mod 10)"
      by (rule digit_of_digit_char) simp
    have "str_of_nat n = str_of_nat (n div 10) @ [digit_char (n mod 10)]"
      using False str_of_nat_unfold[of n] by simp
    then have "digits_value 0 (str_of_nat n) = 10 * digits_value 0 (str_of_nat (n div 10)) + n mod 10"
      using m by (simp add: digits_value_append)
    then show ?thesis using 1 False by simp
  qed
qed

lemma str_of_nat_nonempty: "str_of_nat n \<noteq> []"
  using str_of_nat_unfold[of n] by (cases "n < 10") auto

lemma str_of_nat_no_underscore:
  "filter (\<lambda>x. x \<noteq> CHR ''_'') (str_of_nat n) = str_of_nat n"
proof -
  have "\<forall>x \<in> set (str_of_nat n). x \<noteq> CHR ''_''"
    using str_of_nat_digits[of n] digit_of_underscore by auto
  then show ?thesis by (simp add: filter_id_conv)
qed

lemma parse_nat_str_of_nat:
  assumes "length (str_of_nat n) \<le> MAX_STR_DIGITS"
  shows "parse_nat (str_of_nat n) = Some n"
proof -
  obtain c cs where s: "str_of_nat n = c # cs"
    using str_of_nat_nonempty[of n] by (cases "str_of_nat n") auto
  have all: "\<forall>x \<in> set (c # cs). digit_of x \<noteq> None" using str_of_nat_digits[of n] s by simp
  then obtain d where d: "digit_of c = Some d" by auto
  have pcs: "\<forall>x \<in> set cs. digit_of x \<noteq> None" using all by simp
  have few: "\<not> length (filter (\<lambda>x. x \<noteq> CHR ''_'') (c # cs)) > MAX_STR_DIGITS"
    using assms str_of_nat_no_underscore[of n] s by simp
  have "digits_value 0 (c # cs) = digits_value d cs"
    using d by (simp add: digits_value_def)
  then have "digits_value d cs = n" using str_of_nat_value[of n] s by simp
  then show ?thesis
    using s d few parse_digits_plain[OF pcs, of d] by (simp add: parse_nat_def)
qed

lemma strip_id:
  assumes "s \<noteq> []" "\<not> is_space (hd s)" "\<not> is_space (last s)"
  shows "strip s = s"
proof -
  have a: "dropWhile is_space s = s" using assms by (cases s) auto
  have "rev s \<noteq> []" "\<not> is_space (hd (rev s))" using assms by (auto simp: hd_rev)
  then have "dropWhile is_space (rev s) = rev s" by (cases "rev s") auto
  then show ?thesis using a by (simp add: strip_def)
qed

lemma str_of_nat_ends:
  "\<not> is_space (hd (str_of_nat n))" "\<not> is_space (last (str_of_nat n))"
  "hd (str_of_nat n) \<noteq> CHR ''-''" "hd (str_of_nat n) \<noteq> CHR ''+''"
proof -
  have h: "hd (str_of_nat n) \<in> set (str_of_nat n)" "last (str_of_nat n) \<in> set (str_of_nat n)"
    using str_of_nat_nonempty[of n] by auto
  obtain d where d: "digit_of (hd (str_of_nat n)) = Some d"
    using str_of_nat_digits[of n] h(1) by auto
  obtain e where e: "digit_of (last (str_of_nat n)) = Some e"
    using str_of_nat_digits[of n] h(2) by auto
  show "\<not> is_space (hd (str_of_nat n))" "hd (str_of_nat n) \<noteq> CHR ''-''" "hd (str_of_nat n) \<noteq> CHR ''+''"
    using digit_of_plain[OF d] by simp_all
  show "\<not> is_space (last (str_of_nat n))"
    using digit_of_plain[OF e] by simp
qed

lemma int_of_str_str_of_int:
  assumes "within_digit_limit i"
  shows "int_of_str (str_of_int i) = Some i"
proof (cases "i < 0")
  case True
  let ?s = "CHR ''-'' # str_of_nat (nat (- i))"
  have len: "length (str_of_nat (nat (- i))) \<le> MAX_STR_DIGITS"
    using assms True by (simp add: within_digit_limit_def abs_if)
  have "last ?s = last (str_of_nat (nat (- i)))"
    using str_of_nat_nonempty by simp
  then have "\<not> is_space (last ?s)"
    using str_of_nat_ends(2) by simp
  moreover have "\<not> is_space (hd ?s)" by (simp add: is_space_def)
  ultimately have "strip ?s = ?s" by (intro strip_id) auto
  then show ?thesis using True
    by (simp add: int_of_str_def str_of_int_def parse_nat_str_of_nat[OF len])
next
  case False
  let ?s = "str_of_nat (nat i)"
  have len: "length ?s \<le> MAX_STR_DIGITS"
    using assms False by (simp add: within_digit_limit_def abs_if)
  obtain c cs where s: "?s = c # cs"
    using str_of_nat_nonempty[of "nat i"] by (cases ?s) auto
  have st: "strip ?s = ?s"
    using str_of_nat_nonempty str_of_nat_ends(1,2) by (intro strip_id) auto
  have hd: "c \<noteq> CHR ''-''" "c \<noteq> CHR ''+''"
    using str_of_nat_ends(3,4)[of "nat i"] s by simp_all
  have "parse_nat (c # cs) = Some (nat i)" using parse_nat_str_of_nat[OF len] s by simp
  then show ?thesis using False st s hd
    by (simp add: int_of_str_def str_of_int_def)
qed

lemma str_of_nat_small: "n < 10 \<Longrightarrow> str_of_nat n = [digit_char n]"
  using str_of_nat_unfold[of n] by simp

lemma str_of_nat_big:
  "\<not> n < 10 \<Longrightarrow> str_of_nat n = str_of_nat (n div 10) @ [digit_char (n mod 10)]"
  using str_of_nat_unfold[of n] by simp

lemmas str_eval = str_of_int_def str_of_nat_small str_of_nat_big digit_char_def

lemmas int_eval = int_of_str_def strip_def is_space_def parse_nat_def digit_of_def MAX_STR_DIGITS_def

lemmas limit_eval = within_digit_limit_def MAX_STR_DIGITS_def str_of_nat_small str_of_nat_big

section \<open>Identifier lists and the resume scan\<close>

lemma coerce_items_eq: "coerce_items source appids = appids @ List.map_filter py_int source"
  by (induction source arbitrary: appids) (auto split: option.splits)

lemma first_occurrences_distinct:
  "distinct xs \<Longrightarrow> set seen \<inter> set xs = {} \<Longrightarrow> first_occurrences seen xs = xs"
  by (induction xs arbitrary: seen) auto

lemma scan_lines_done:
  "fst (scan_lines n ls done warned) = done \<union> set (record_ids ls)"
proof (induction n ls "done" warned rule: scan_lines.induct)
  case (4 line_no obj rest "done" warned)
  then show ?case
    by (auto simp: record_ids_def split: json.splits list.splits prod.splits option.splits)
qed (simp_all add: record_ids_def)

lemma scan_lines_warned:
  "snd (scan_lines n ls done warned)
     = warned @ map fst (filter (\<lambda>(k, l). malformed l) (List.enumerate n ls))"
proof (induction n ls "done" warned rule: scan_lines.induct)
  case (4 line_no obj rest "done" warned)
  then show ?case
    by (auto split: json.splits list.splits prod.splits option.splits)
qed simp_all

lemma load_done_text:
  "load_done_appids_from_jsonl (Lines ls)
     = Inr (set (record_ids ls), map fst (filter (\<lambda>(k, l). malformed l) (List.enumerate 1 ls)))"
  using scan_lines_done[of 1 ls "{}" "[]"] scan_lines_warned[of 1 ls "{}" "[]"]
  by (simp add: load_done_appids_from_jsonl_def prod_eq_iff)

text \<open>
  Claim C6 (the resume scan never raises), evaluated: for an output file whose content
  is not valid UTF-8, such as a record cut in the middle of a multi-byte character by
  an interrupted run, the iteration over the file handle raises \<^verbatim>\<open>UnicodeDecodeError\<close>
  outside the \<^verbatim>\<open>try\<close> of the loop body, and the scan raises. A missing file gives the
  empty set, and a decodable file whose last line is a truncated record gives the set of
  the lines before it, with one warning.
\<close>

theorem load_done_raises:
  "load_done_appids_from_jsonl Undecodable = Inl UnicodeDecodeError
   \<and> load_done_appids_from_jsonl Missing = Inr ({}, [])
   \<and> load_done_appids_from_jsonl
       (Lines [Parsed (JObj [(''1'', JObj [])]), Parsed (JObj [(''2'', JObj [])]), Unparsable])
     = Inr ({1, 2}, [3])"
  by (simp add: load_done_appids_from_jsonl_def int_eval insert_commute)

text \<open>
  Claim C5 as stated fails on a list with a repeated identifier: \<^verbatim>\<open>load_local_appids\<close>
  returns both occurrences, where the claim has the duplicate removed.
\<close>

theorem load_local_appids_duplicates:
  "load_local_appids (Doc (JArr [JInt 7, JInt 7])) = Inr [7, 7]
   \<and> load_identifiers_spec [JInt 7, JInt 7] = [7]
   \<and> load_local_appids (Doc (JArr [JInt 7, JInt 7]))
       \<noteq> Inr (load_identifiers_spec [JInt 7, JInt 7])"
  by (simp add: load_local_appids_def load_identifiers_spec_def)

text \<open>
  Claim C5, amended: for an identifier-list document of either shape,
  \<^verbatim>\<open>load_local_appids\<close> returns the integer-coercible entries as integers in the order of
  the document (entries that are not integer-coercible, the ones on which \<^verbatim>\<open>int\<close> raises,
  are dropped, duplicates are kept); the document \<^verbatim>\<open>{"appids": source}\<close> and the bare list
  \<^verbatim>\<open>source\<close> give the same sequence; where the coerced entries are pairwise distinct this
  is the de-duplicated sequence of the specification.
\<close>

theorem load_local_appids_sequence:
  "load_local_appids (Doc (JArr source)) = Inr (List.map_filter py_int source)
   \<and> (dict_get kvs ''appids'' = Some (JArr source) \<longrightarrow>
        load_local_appids (Doc (JObj kvs)) = load_local_appids (Doc (JArr source)))
   \<and> (distinct (List.map_filter py_int source) \<longrightarrow>
        load_local_appids (Doc (JArr source)) = Inr (load_identifiers_spec source))"
  by (simp add: load_local_appids_def coerce_items_eq load_identifiers_spec_def
      first_occurrences_distinct)

theorem load_local_appids_sequence_witness:
  "dict_get [(''appids'', JArr [JInt 10, JStr '' 20'', JNull, JStr [CHR 0x1C, CHR ''7''], JInt 30])]
       ''appids''
     = Some (JArr [JInt 10, JStr '' 20'', JNull, JStr [CHR 0x1C, CHR ''7''], JInt 30])
   \<and> distinct (List.map_filter py_int
         [JInt 10, JStr '' 20'', JNull, JStr [CHR 0x1C, CHR ''7''], JInt 30])
   \<and> load_local_appids
       (Doc (JObj [(''appids'',
          JArr [JInt 10, JStr '' 20'', JNull, JStr [CHR 0x1C, CHR ''7''], JInt 30])]))
     = Inr [10, 20, 30]
   \<and> load_local_appids
       (Doc (JArr [JInt 10, JStr '' 20'', JNull, JStr [CHR 0x1C, CHR ''7''], JInt 30]))
     = Inr [10, 20, 30]
   \<and> load_identifiers_spec [JInt 10, JStr '' 20'', JNull, JStr [CHR 0x1C, CHR ''7''], JInt 30]
     = [10, 20, 30]"
  using load_local_appids_sequence
    [of "[JInt 10, JStr '' 20'', JNull, JStr [CHR 0x1C, CHR ''7''], JInt 30]"
        "[(''appids'', JArr [JInt 10, JStr '' 20'', JNull, JStr [CHR 0x1C, CHR ''7''], JInt 30])]"]
  by (simp add: dict_get_def int_eval load_identifiers_spec_def)

section \<open>The rate limiter\<close>

text \<open>
  Claim C7 as stated fails for a long interval: with the interval \<open>1e10\<close> seconds, which
  the scripts accept, and 5 seconds on the clock, less than the interval has elapsed, the
  remaining time is 9999999995 seconds, \<^verbatim>\<open>time.sleep\<close> raises \<^verbatim>\<open>OverflowError\<close> on it, and
  \<^verbatim>\<open>wait\<close> raises where the claim has it sleep and return; likewise for the interval
  \<^verbatim>\<open>inf\<close>.
\<close>

theorem wait_overflow:
  "below (exact (5 - last_ts (new_RateLimiter (Finite 10000000000)))) (Finite 10000000000)
   \<and> remaining exact (Finite 10000000000) (exact (5 - 0)) = Finite 9999999995
   \<and> wait exact (new_RateLimiter (Finite 10000000000)) 5 (Some OverflowError) 5
       = Inl OverflowError
   \<and> wait exact (new_RateLimiter PosInf) 5 (Some OverflowError) 5 = Inl OverflowError"
  by (simp add: wait_def below_def remaining_def new_RateLimiter_def exact_def)

text \<open>
  Claim C7, amended: for a limiter with a finite minimum interval \<open>I > 0\<close>, when
  \<^verbatim>\<open>time.sleep\<close> returns: if the float difference between the clock and the recorded
  last-request time is less than \<open>I\<close>, \<^verbatim>\<open>wait\<close> sleeps for the float of \<open>I\<close> minus that
  difference and returns it, otherwise it returns 0 without sleeping; the last-request
  time becomes the clock reading taken after the sleep; and when the two differences
  need no rounding and the clock after the sleep is not before the first reading plus
  the time slept, the new last-request time is at least \<open>I\<close> later than the previous one.
\<close>

theorem wait_spacing:
  assumes "min_interval self = Finite i" "0 < i"
  shows "(fl (now - last_ts self) < i \<longrightarrow>
        wait fl self now None now'
          = Inr (Finite (fl (i - fl (now - last_ts self))), self\<lparr>last_ts := now'\<rparr>))
    \<and> (\<not> fl (now - last_ts self) < i \<longrightarrow>
        wait fl self now None now' = Inr (Finite 0, self\<lparr>last_ts := now'\<rparr>))
    \<and> (fl (now - last_ts self) = now - last_ts self \<longrightarrow>
        fl (i - (now - last_ts self)) = i - (now - last_ts self) \<longrightarrow>
        (\<forall>waited limiter. wait fl self now None now' = Inr (Finite waited, limiter) \<longrightarrow>
           now + waited \<le> now' \<longrightarrow>
           last_ts self + i \<le> last_ts limiter \<and> min_interval limiter = Finite i))"
  using assms by (auto simp: wait_def below_def remaining_def Let_def)

theorem wait_spacing_witness:
  "min_interval (new_RateLimiter (Finite 2)) = Finite 2 \<and> (0::real) < 2
   \<and> wait exact (new_RateLimiter (Finite 2)) 0.5 None 2.25
       = Inr (Finite 1.5, \<lparr>min_interval = Finite 2, last_ts = 2.25\<rparr>)
   \<and> wait exact \<lparr>min_interval = Finite 2, last_ts = 2.25\<rparr> 3 None 4.5
       = Inr (Finite 1.25, \<lparr>min_interval = Finite 2, last_ts = 4.5\<rparr>)
   \<and> wait exact \<lparr>min_interval = Finite 2, last_ts = 4.5\<rparr> 7 None 7
       = Inr (Finite 0, \<lparr>min_interval = Finite 2, last_ts = 7\<rparr>)"
  using wait_spacing[of "new_RateLimiter (Finite 2)" 2 exact "0.5" "2.25"]
  by (simp add: wait_def below_def remaining_def new_RateLimiter_def exact_def)

section \<open>The retrying fetcher\<close>

lemma retry_loop_Retry:
  "attempt_verdict cd fl r b (env k) = Retry s \<Longrightarrow>
     retry_loop cd fl r env k (Suc left) b slept
       = retry_loop cd fl r env (Suc k) left (b * 2) (slept @ [s])"
  by simp

lemma retry_loop_Raise:
  "attempt_verdict cd fl r b (env k) = Raise x \<Longrightarrow>
     retry_loop cd fl r env k (Suc left) b slept = (Some (Inl x), slept, Suc k)"
  by simp

lemma retry_loop_Return:
  "attempt_verdict cd fl r b (env k) = Return p \<Longrightarrow>
     retry_loop cd fl r env k (Suc left) b slept = (Some (Inr p), slept, Suc k)"
  by simp

lemma verdict_transient:
  assumes "calm e" "transient_failure (resp e)" "within_digit_limit r"
  shows "attempt_verdict cd fl r b e = Retry (sleep_after cd fl b e)"
  using assms
  by (cases "resp e" rule: transient_failure.cases)
    (auto simp: calm_def attempt_verdict_def on_exception_def on_non_json_def
      sleep_then_retry_def sleep_after_def Let_def)

lemma verdict_fatal:
  assumes "wait_error e = None" "url_error e = None" "within_digit_limit r"
    "resp e = Raises (HTTPError code)" "\<not> transient_status code"
  shows "attempt_verdict cd fl r b e = Raise (HTTPError code)"
  using assms by (simp add: attempt_verdict_def on_exception_def)

lemma verdict_json:
  assumes "wait_error e = None" "url_error e = None" "within_digit_limit r"
    "resp e = Body body (Inr payload)"
  shows "attempt_verdict cd fl r b e = Return payload"
  using assms by (simp add: attempt_verdict_def)

text \<open>
  After \<open>k\<close> transient failures in calm attempts the loop is at the attempt \<open>k\<close> with the
  backoff doubled \<open>k\<close> times and the \<open>k\<close> sleeps slept.
\<close>

lemma retry_loop_transient:
  assumes "within_digit_limit r"
    and "\<forall>j<k. calm (env (a + j)) \<and> transient_failure (resp (env (a + j)))"
  shows "retry_loop cd fl r env a (k + left) b slept
           = retry_loop cd fl r env (a + k) left (b * 2 ^ k)
               (slept @ map (\<lambda>j. sleep_after cd fl (b * 2 ^ j) (env (a + j))) [0..<k])"
  using assms(2)
proof (induction k arbitrary: a b slept)
  case 0
  then show ?case by simp
next
  case (Suc k)
  let ?s = "sleep_after cd fl b (env a)"
  have first: "calm (env a)" "transient_failure (resp (env a))"
    using Suc.prems by force+
  have v: "attempt_verdict cd fl r b (env a) = Retry ?s"
    by (rule verdict_transient[OF first assms(1)])
  have rest: "\<forall>j<k. calm (env (Suc a + j)) \<and> transient_failure (resp (env (Suc a + j)))"
  proof (intro allI impI)
    fix j assume "j < k"
    then have "Suc j < Suc k" by simp
    then show "calm (env (Suc a + j)) \<and> transient_failure (resp (env (Suc a + j)))"
      using Suc.prems by (metis add_Suc_shift)
  qed
  have ih: "retry_loop cd fl r env (Suc a) (k + left) (b * 2) (slept @ [?s])
      = retry_loop cd fl r env (Suc a + k) left (b * 2 * 2 ^ k)
          ((slept @ [?s]) @ map (\<lambda>j. sleep_after cd fl (b * 2 * 2 ^ j) (env (Suc a + j))) [0..<k])"
    by (rule Suc.IH[OF rest])
  have "[0..<Suc k] = 0 # map Suc [0..<k]"
    by (simp add: upt_conv_Cons map_Suc_upt del: upt_Suc)
  then have m: "map (\<lambda>j. sleep_after cd fl (b * 2 ^ j) (env (a + j))) [0..<Suc k]
      = ?s # map (\<lambda>j. sleep_after cd fl (b * 2 * 2 ^ j) (env (Suc a + j))) [0..<k]"
    by (simp add: comp_def mult.assoc del: upt_Suc)
  have "retry_loop cd fl r env a (Suc k + left) b slept
      = retry_loop cd fl r env (Suc a) (k + left) (b * 2) (slept @ [?s])"
    using retry_loop_Retry[where env=env and k=a, OF v, of "k + left" slept] by simp
  then show ?case using ih m by (simp add: mult.assoc del: retry_loop.simps upt_Suc)
qed

lemma retry_loop_sleeps_prefix:
  "\<exists>more. fst (snd (retry_loop cd fl r env attempt left b slept)) = slept @ more"
proof (induction left arbitrary: attempt b slept)
  case 0
  then show ?case by simp
next
  case (Suc left)
  show ?case
  proof (cases "attempt_verdict cd fl r b (env attempt)")
    case (Return p)
    then show ?thesis by simp
  next
    case (Retry s)
    obtain more where
      "fst (snd (retry_loop cd fl r env (Suc attempt) left (b * 2) (slept @ [s])))
         = (slept @ [s]) @ more"
      using Suc.IH by blast
    then show ?thesis
      by (simp add: retry_loop_Retry[where env=env and k=attempt, OF Retry] del: retry_loop.simps)
  next
    case (Raise x)
    then show ?thesis by simp
  qed
qed

lemma fetch_with_fields:
  "outcome (fetch_with cd fl url retries env)
     = (case fst (retry_loop cd fl retries env 0 (nat retries) 1 []) of
          Some res \<Rightarrow> res
        | None \<Rightarrow>
            if within_digit_limit retries
            then Inl (RuntimeError (''Failed after retries ('' @ str_of_int retries @ ''): '' @ url))
            else Inl digit_limit_error)"
  "sleeps (fetch_with cd fl url retries env)
     = fst (snd (retry_loop cd fl retries env 0 (nat retries) 1 []))"
  "attempts (fetch_with cd fl url retries env)
     = snd (snd (retry_loop cd fl retries env 0 (nat retries) 1 []))"
  by (simp_all add: fetch_with_def split: prod.splits)

text \<open>
  The fetch after \<open>k\<close> transient failures in calm attempts: what the attempt \<open>k\<close> decides,
  if there is one, and the failure after the last attempt otherwise.
\<close>

lemma fetch_with_after_transient:
  assumes "within_digit_limit retries"
    and "\<forall>j<k. calm (env j) \<and> transient_failure (resp (env j))"
  shows "k < nat retries \<Longrightarrow> attempt_verdict cd fl retries (2 ^ k) (env k) = Raise x \<Longrightarrow>
           fetch_with cd fl url retries env
             = \<lparr>outcome = Inl x,
                sleeps = map (\<lambda>j. sleep_after cd fl (2 ^ j) (env j)) [0..<k],
                attempts = Suc k\<rparr>"
    and "k < nat retries \<Longrightarrow> attempt_verdict cd fl retries (2 ^ k) (env k) = Return p \<Longrightarrow>
           fetch_with cd fl url retries env
             = \<lparr>outcome = Inr p,
                sleeps = map (\<lambda>j. sleep_after cd fl (2 ^ j) (env j)) [0..<k],
                attempts = Suc k\<rparr>"
    and "k = nat retries \<Longrightarrow>
           fetch_with cd fl url retries env
             = \<lparr>outcome = Inl (RuntimeError
                   (''Failed after retries ('' @ str_of_int retries @ ''): '' @ url)),
                sleeps = map (\<lambda>j. sleep_after cd fl (2 ^ j) (env j)) [0..<k],
                attempts = k\<rparr>"
proof -
  have pre: "\<forall>j<k. calm (env (0 + j)) \<and> transient_failure (resp (env (0 + j)))"
    using assms(2) by simp
  have loop: "retry_loop cd fl retries env 0 (k + left) 1 []
      = retry_loop cd fl retries env k left (2 ^ k)
          (map (\<lambda>j. sleep_after cd fl (2 ^ j) (env j)) [0..<k])" for left
    using retry_loop_transient[OF assms(1) pre, of cd fl left 1 "[]"] by simp
  {
    assume k: "k < nat retries"
    then obtain left where l: "nat retries = k + Suc left"
      by (metis add_Suc_right less_imp_Suc_add)
    {
      assume "attempt_verdict cd fl retries (2 ^ k) (env k) = Raise x"
      then show "fetch_with cd fl url retries env
             = \<lparr>outcome = Inl x,
                sleeps = map (\<lambda>j. sleep_after cd fl (2 ^ j) (env j)) [0..<k],
                attempts = Suc k\<rparr>"
        using loop[of "Suc left"] l by (simp add: fetch_with_def)
    }
    {
      assume "attempt_verdict cd fl retries (2 ^ k) (env k) = Return p"
      then show "fetch_with cd fl url retries env
             = \<lparr>outcome = Inr p,
                sleeps = map (\<lambda>j. sleep_after cd fl (2 ^ j) (env j)) [0..<k],
                attempts = Suc k\<rparr>"
        using loop[of "Suc left"] l by (simp add: fetch_with_def)
    }
  }
  {
    assume "k = nat retries"
    then show "fetch_with cd fl url retries env
             = \<lparr>outcome = Inl (RuntimeError
                   (''Failed after retries ('' @ str_of_int retries @ ''): '' @ url)),
                sleeps = map (\<lambda>j. sleep_after cd fl (2 ^ j) (env j)) [0..<k],
                attempts = k\<rparr>"
      using loop[of 0] assms(1) by (simp add: fetch_with_def)
  }
qed

text \<open>The sleep with the index \<open>k\<close>, when the attempt \<open>k\<close> fails transiently as well.\<close>

lemma fetch_with_sleep:
  assumes "within_digit_limit retries" "k < nat retries"
    and "\<forall>j\<le>k. calm (env j) \<and> transient_failure (resp (env j))"
  shows "k < length (sleeps (fetch_with cd fl url retries env))"
    and "sleeps (fetch_with cd fl url retries env) ! k = sleep_after cd fl (2 ^ k) (env k)"
proof -
  obtain left where l: "nat retries = Suc k + left"
    using assms(2) by (metis add_Suc less_imp_Suc_add)
  have pre: "\<forall>j<Suc k. calm (env (0 + j)) \<and> transient_failure (resp (env (0 + j)))"
    using assms(3) by simp
  let ?slept = "map (\<lambda>j. sleep_after cd fl (2 ^ j) (env j)) [0..<Suc k]"
  have loop: "retry_loop cd fl retries env 0 (Suc k + left) 1 []
      = retry_loop cd fl retries env (Suc k) left (2 ^ Suc k) ?slept"
    using retry_loop_transient[OF assms(1) pre, of cd fl left 1 "[]"] by simp
  obtain more where
    more: "fst (snd (retry_loop cd fl retries env (Suc k) left (2 ^ Suc k) ?slept)) = ?slept @ more"
    using retry_loop_sleeps_prefix by blast
  have s: "sleeps (fetch_with cd fl url retries env) = ?slept @ more"
    using loop more l by (simp add: fetch_with_fields del: retry_loop.simps upt_Suc)
  show "k < length (sleeps (fetch_with cd fl url retries env))"
    using s by simp
  have "(?slept @ more) ! k = ?slept ! k"
    by (simp add: nth_append del: upt_Suc)
  also have "\<dots> = sleep_after cd fl (2 ^ k) (env k)"
    by (simp add: nth_append)
  finally show "sleeps (fetch_with cd fl url retries env) ! k = sleep_after cd fl (2 ^ k) (env k)"
    using s by simp
qed

lemma sleep_after_http:
  "resp e = Raises x \<Longrightarrow> sleep_after cd fl b e = fl (b + jitter e * 0.5)"
  by (simp add: sleep_after_def backoff_sleep_def)

lemma sleep_after_marker:
  "resp e = Body body r \<Longrightarrow> sublist ''Too many connections'' body \<Longrightarrow>
     sleep_after cd fl b e = max (fl (b + jitter e * 0.5)) (fl (cd + cooldown_jitter e * 2))"
  by (simp add: sleep_after_def backoff_sleep_def)

lemmas fetch_eval =
  http_get_json_def games_http_get_json_def fetch_with_def attempt_verdict_def on_exception_def
  on_non_json_def sleep_then_retry_def backoff_sleep_def transient_status_def calm_env_def
  exact_def store_url_def Let_def numeral_2_eq_2

text \<open>
  Claim C3, for both fetchers, in calm attempts (no log line, \<^verbatim>\<open>Request\<close> or \<^verbatim>\<open>time.sleep\<close>
  raises) and for a bound within the digit limit. An \<^verbatim>\<open>HTTPError\<close> with a status in
  \<open>{429, 500, 502, 503, 504}\<close> is transient, like a \<^verbatim>\<open>URLError\<close> and a body that is not JSON:
  after \<open>k\<close> transient failures the fetcher has slept \<open>k\<close> times, after a transient status
  for the float of backoff plus jitter, the backoff being \<open>2 ^ j\<close> at the attempt \<open>j\<close>, and
  is at the attempt \<open>k\<close>. There an \<^verbatim>\<open>HTTPError\<close> with any other status is raised by the
  fetch, with no sleep and no further attempt, and a JSON document is returned; and when
  all \<^verbatim>\<open>retries\<close> attempts have failed transiently, the fetch fails with the \<^verbatim>\<open>RuntimeError\<close>
  that carries the bound and the url.
\<close>

theorem http_error_policy:
  assumes "(f, cd) = (http_get_json, 60) \<or> (f, cd) = (games_http_get_json, 5)"
    and "within_digit_limit retries"
    and "\<forall>j<k. calm (env j) \<and> transient_failure (resp (env j))"
  shows "(transient_failure (Raises (HTTPError code)) \<longleftrightarrow> code \<in> {429, 500, 502, 503, 504})
    \<and> (\<forall>j<k. \<forall>c. resp (env j) = Raises (HTTPError c) \<longrightarrow>
          sleep_after cd fl (2 ^ j) (env j) = fl (2 ^ j + jitter (env j) * 0.5))
    \<and> (k < nat retries \<longrightarrow> wait_error (env k) = None \<longrightarrow> url_error (env k) = None \<longrightarrow>
          resp (env k) = Raises (HTTPError code) \<longrightarrow> code \<notin> {429, 500, 502, 503, 504} \<longrightarrow>
          f fl url retries env
            = \<lparr>outcome = Inl (HTTPError code),
               sleeps = map (\<lambda>j. sleep_after cd fl (2 ^ j) (env j)) [0..<k],
               attempts = Suc k\<rparr>)
    \<and> (k < nat retries \<longrightarrow> wait_error (env k) = None \<longrightarrow> url_error (env k) = None \<longrightarrow>
          resp (env k) = Body body (Inr payload) \<longrightarrow>
          f fl url retries env
            = \<lparr>outcome = Inr payload,
               sleeps = map (\<lambda>j. sleep_after cd fl (2 ^ j) (env j)) [0..<k],
               attempts = Suc k\<rparr>)
    \<and> (k = nat retries \<longrightarrow>
          f fl url retries env
            = \<lparr>outcome = Inl (RuntimeError
                  (''Failed after retries ('' @ str_of_int retries @ ''): '' @ url)),
               sleeps = map (\<lambda>j. sleep_after cd fl (2 ^ j) (env j)) [0..<nat retries],
               attempts = nat retries\<rparr>)"
proof -
  have f: "f = fetch_with cd"
    using assms(1) by (auto simp: http_get_json_def games_http_get_json_def fun_eq_iff)
  have a: "transient_failure (Raises (HTTPError code)) \<longleftrightarrow> code \<in> {429, 500, 502, 503, 504}"
    by (simp add: transient_status_def)
  have b: "\<forall>j<k. \<forall>c. resp (env j) = Raises (HTTPError c) \<longrightarrow>
          sleep_after cd fl (2 ^ j) (env j) = fl (2 ^ j + jitter (env j) * 0.5)"
    by (simp add: sleep_after_http)
  have c: "k < nat retries \<longrightarrow> wait_error (env k) = None \<longrightarrow> url_error (env k) = None \<longrightarrow>
          resp (env k) = Raises (HTTPError code) \<longrightarrow> code \<notin> {429, 500, 502, 503, 504} \<longrightarrow>
          f fl url retries env
            = \<lparr>outcome = Inl (HTTPError code),
               sleeps = map (\<lambda>j. sleep_after cd fl (2 ^ j) (env j)) [0..<k],
               attempts = Suc k\<rparr>"
  proof (intro impI)
    assume k: "k < nat retries" and e: "wait_error (env k) = None" "url_error (env k) = None"
      "resp (env k) = Raises (HTTPError code)" and n: "code \<notin> {429, 500, 502, 503, 504}"
    have "\<not> transient_status code" using n by (simp add: transient_status_def)
    then have "attempt_verdict cd fl retries (2 ^ k) (env k) = Raise (HTTPError code)"
      by (rule verdict_fatal[OF e(1,2) assms(2) e(3)])
    then show "f fl url retries env
            = \<lparr>outcome = Inl (HTTPError code),
               sleeps = map (\<lambda>j. sleep_after cd fl (2 ^ j) (env j)) [0..<k],
               attempts = Suc k\<rparr>"
      unfolding f by (rule fetch_with_after_transient(1)[OF assms(2,3) k])
  qed
  have d: "k < nat retries \<longrightarrow> wait_error (env k) = None \<longrightarrow> url_error (env k) = None \<longrightarrow>
          resp (env k) = Body body (Inr payload) \<longrightarrow>
          f fl url retries env
            = \<lparr>outcome = Inr payload,
               sleeps = map (\<lambda>j. sleep_after cd fl (2 ^ j) (env j)) [0..<k],
               attempts = Suc k\<rparr>"
  proof (intro impI)
    assume k: "k < nat retries" and e: "wait_error (env k) = None" "url_error (env k) = None"
      "resp (env k) = Body body (Inr payload)"
    have "attempt_verdict cd fl retries (2 ^ k) (env k) = Return payload"
      by (rule verdict_json[OF e(1,2) assms(2) e(3)])
    then show "f fl url retries env
            = \<lparr>outcome = Inr payload,
               sleeps = map (\<lambda>j. sleep_after cd fl (2 ^ j) (env j)) [0..<k],
               attempts = Suc k\<rparr>"
      unfolding f by (rule fetch_with_after_transient(2)[OF assms(2,3) k])
  qed
  have e: "k = nat retries \<longrightarrow>
          f fl url retries env
            = \<lparr>outcome = Inl (RuntimeError
                  (''Failed after retries ('' @ str_of_int retries @ ''): '' @ url)),
               sleeps = map (\<lambda>j. sleep_after cd fl (2 ^ j) (env j)) [0..<nat retries],
               attempts = nat retries\<rparr>"
  proof
    assume k: "k = nat retries"
    show "f fl url retries env
            = \<lparr>outcome = Inl (RuntimeError
                  (''Failed after retries ('' @ str_of_int retries @ ''): '' @ url)),
               sleeps = map (\<lambda>j. sleep_after cd fl (2 ^ j) (env j)) [0..<nat retries],
               attempts = nat retries\<rparr>"
      using fetch_with_after_transient(3)[OF assms(2,3) k, of cd fl url] k unfolding f by simp
  qed
  show ?thesis using a b c d e by blast
qed

theorem http_error_policy_witness:
  "http_get_json exact store_url 2 gone_env
     = \<lparr>outcome = Inl (HTTPError 404), sleeps = [1.25], attempts = 2\<rparr>
   \<and> games_http_get_json exact store_url 2 gone_env
     = \<lparr>outcome = Inl (HTTPError 404), sleeps = [1.25], attempts = 2\<rparr>
   \<and> http_get_json exact store_url 2 recovering_env
     = \<lparr>outcome = Inr (JObj []), sleeps = [1.25], attempts = 2\<rparr>
   \<and> http_get_json exact store_url 2 unavailable_env
     = \<lparr>outcome = Inl (RuntimeError (''Failed after retries (2): '' @ store_url)),
        sleeps = [1.25, 2.25], attempts = 2\<rparr>"
proof -
  have l: "within_digit_limit 2" by (simp add: limit_eval)
  have g: "\<forall>j<1. calm (gone_env j) \<and> transient_failure (resp (gone_env j))"
    by (simp add: gone_env_def calm_env_def calm_def transient_status_def)
  have r: "\<forall>j<1. calm (recovering_env j) \<and> transient_failure (resp (recovering_env j))"
    by (simp add: recovering_env_def calm_env_def calm_def transient_status_def)
  have u: "\<forall>j<2. calm (unavailable_env j) \<and> transient_failure (resp (unavailable_env j))"
    by (simp add: unavailable_env_def calm_env_def calm_def transient_status_def)
  have s1: "map (\<lambda>j. sleep_after cd exact (2 ^ j) (gone_env j)) [0..<1] = [1.25]"
    "map (\<lambda>j. sleep_after cd exact (2 ^ j) (recovering_env j)) [0..<1] = [1.25]" for cd
    by (simp_all add: sleep_after_def backoff_sleep_def exact_def gone_env_def recovering_env_def
        calm_env_def)
  have s2: "map (\<lambda>j. sleep_after 60 exact (2 ^ j) (unavailable_env j)) [0..<nat 2] = [1.25, 2.25]"
    by (simp add: sleep_after_def backoff_sleep_def exact_def unavailable_env_def calm_env_def
        upt_rec)
  show ?thesis
    using
      http_error_policy[where f=http_get_json and cd=60 and code=404 and fl=exact
        and url=store_url and env=gone_env and k=1, OF _ l g]
      http_error_policy[where f=games_http_get_json and cd=5 and code=404 and fl=exact
        and url=store_url and env=gone_env and k=1, OF _ l g]
      http_error_policy[where f=http_get_json and cd=60 and fl=exact and url=store_url
        and body="''{}''" and payload="JObj []" and env=recovering_env and k=1, OF _ l r]
      http_error_policy[where f=http_get_json and cd=60 and fl=exact and url=store_url
        and env=unavailable_env and k=2, OF _ l u]
      s1 s2
    by (simp add: gone_env_def recovering_env_def calm_env_def str_eval sleep_after_def
        backoff_sleep_def exact_def)
qed

text \<open>
  Claim C4 as stated fails in two ways. In \<^verbatim>\<open>http_get_json\<close> of fetch\_games.py the sleep
  on the rate-limit message is floored at 5 seconds, not at tens of seconds. And in both
  fetchers the log line with the head of the body comes before the sleep: on a body with
  the message and a closing tag \<^verbatim>\<open>rich\<close> raises \<^verbatim>\<open>MarkupError\<close>, and the fetch fails at once,
  without any sleep and without a next attempt.
\<close>

theorem cooldown_floor_games:
  "games_http_get_json exact store_url 2 throttled_env
     = \<lparr>outcome = Inl (RuntimeError (''Failed after retries (2): '' @ store_url)),
        sleeps = [5, 5], attempts = 2\<rparr>
   \<and> \<not> 10 \<le> sleeps (games_http_get_json exact store_url 2 throttled_env) ! 0
   \<and> sleeps (http_get_json exact store_url 2 throttled_env) = [60, 60]
   \<and> http_get_json exact store_url 2 tagged_env
     = \<lparr>outcome = Inl MarkupError, sleeps = [], attempts = 1\<rparr>"
  by (simp add: fetch_eval within_digit_limit_def MAX_STR_DIGITS_def str_eval throttled_env_def
      tagged_env_def)

text \<open>
  Claim C4, amended: for an attempt whose body fails to parse as JSON and contains
  \<^verbatim>\<open>Too many connections\<close>, reached after transient failures only, and calm (in particular
  the log line with the head of the body prints), the backoff sleep before the next
  attempt is the maximum of the float of backoff plus jitter and the float of the cooldown
  plus its jitter, so it is at least the cooldown whatever the backoff: 60 seconds in
  \<^verbatim>\<open>http_get_json\<close> of fetch\_common.py and 5 seconds in \<^verbatim>\<open>http_get_json\<close> of fetch\_games.py.
  The rounding of a sum to a float is monotone and keeps a float.
\<close>

theorem cooldown_floor:
  assumes "(f, cd) = (http_get_json, 60) \<or> (f, cd) = (games_http_get_json, 5)"
    and "within_digit_limit retries" "k < nat retries"
    and "\<forall>j<k. calm (env j) \<and> transient_failure (resp (env j))"
    and "calm (env k)" "resp (env k) = Body body (Inl JSONDecodeError)"
    and "sublist ''Too many connections'' body"
    and "\<forall>x y. x \<le> y \<longrightarrow> fl x \<le> fl y" "fl cd = cd" "0 \<le> cooldown_jitter (env k)"
  shows "k < length (sleeps (f fl url retries env))
    \<and> sleeps (f fl url retries env) ! k
        = max (fl (2 ^ k + jitter (env k) * 0.5)) (fl (cd + cooldown_jitter (env k) * 2))
    \<and> cd \<le> sleeps (f fl url retries env) ! k"
proof -
  have f: "f = fetch_with cd"
    using assms(1) by (auto simp: http_get_json_def games_http_get_json_def fun_eq_iff)
  have pre: "\<forall>j\<le>k. calm (env j) \<and> transient_failure (resp (env j))"
    using assms(4,5,6) by (auto simp: le_less)
  have s: "sleeps (f fl url retries env) ! k
      = max (fl (2 ^ k + jitter (env k) * 0.5)) (fl (cd + cooldown_jitter (env k) * 2))"
    unfolding f
    using fetch_with_sleep(2)[OF assms(2,3) pre, of cd fl url] sleep_after_marker[OF assms(6,7)]
    by simp
  have "cd \<le> cd + cooldown_jitter (env k) * 2" using assms(10) by simp
  then have "fl cd \<le> fl (cd + cooldown_jitter (env k) * 2)" using assms(8) by blast
  then have "cd \<le> fl (cd + cooldown_jitter (env k) * 2)" using assms(9) by simp
  then show ?thesis
    using s fetch_with_sleep(1)[OF assms(2,3) pre, of cd fl url] unfolding f by simp
qed

theorem cooldown_floor_witness:
  "1 < length (sleeps (http_get_json exact store_url 2 throttled_env))
   \<and> sleeps (http_get_json exact store_url 2 throttled_env) ! 1 = 60
   \<and> 1 < length (sleeps (games_http_get_json exact store_url 2 throttled_env))
   \<and> sleeps (games_http_get_json exact store_url 2 throttled_env) ! 1 = 5"
proof -
  have l: "within_digit_limit 2" by (simp add: limit_eval)
  have t: "\<forall>j<1. calm (throttled_env j) \<and> transient_failure (resp (throttled_env j))"
    "calm (throttled_env 1)"
    "resp (throttled_env 1) = Body ''Too many connections'' (Inl JSONDecodeError)"
    "0 \<le> cooldown_jitter (throttled_env 1)"
    by (simp_all add: throttled_env_def calm_env_def calm_def)
  have m: "\<forall>x y. x \<le> y \<longrightarrow> exact x \<le> exact y" "exact 60 = 60" "exact 5 = 5"
    by (simp_all add: exact_def)
  show ?thesis
    using cooldown_floor[where f=http_get_json and cd=60 and fl=exact and url=store_url
          and env=throttled_env and k=1, OF _ l _ t(1,2,3) _ m(1,2) t(4)]
      cooldown_floor[where f=games_http_get_json and cd=5 and fl=exact and url=store_url
          and env=throttled_env and k=1, OF _ l _ t(1,2,3) _ m(1,3) t(4)]
    by (simp add: exact_def throttled_env_def calm_env_def)
qed

section \<open>The fetch runs\<close>

lemma subseq_subset: "subseq xs ys \<Longrightarrow> set xs \<subseteq> set ys"
  using list_emb_set[of "(=)" xs ys] by auto

lemma subseq_distinct: "subseq xs ys \<Longrightarrow> distinct ys \<Longrightarrow> distinct xs"
  by (induction rule: list_emb.induct) (auto dest: subseq_subset)

lemma subseq_single: "subseq fs [x] \<Longrightarrow> subseq fs (x # rest)"
  using subseq_order.order_trans[of fs "[x]" "x # rest"] by simp

lemma subseq_step:
  "subseq fs [x] \<Longrightarrow> subseq gs rest \<Longrightarrow> subseq (fs @ gs) (x # rest)"
  using list_emb_append_mono[of "(=)" fs "[x]" gs rest] by simp

lemma record_ids_append: "record_ids (xs @ ys) = record_ids xs @ record_ids ys"
  by (simp add: record_ids_def map_filter_def)

lemma record_of_id:
  "within_digit_limit appid \<Longrightarrow> record_id (Parsed (record_of appid name d payload)) = Some appid"
  by (simp add: record_of_def int_of_str_str_of_int)

text \<open>
  A builder is keyed when every record it returns for \<open>appid\<close> has the identifier \<open>appid\<close>.
  It fetches its own identifier when the fetches of a call for \<open>appid\<close>, in a world that
  lists them, are none or the one of \<open>appid\<close>.
\<close>

lemma store_record_keyed:
  "within_digit_limit appid \<Longrightarrow> store_record rt appid one = Inr r \<Longrightarrow>
     record_id (Parsed r) = Some appid"
  by (auto simp: store_record_def Let_def record_of_id split: sum.splits)

lemma build_store_record_keyed:
  "build_store_record rt appid w = (Inr r, w') \<Longrightarrow>
     r = JNull \<or> record_id (Parsed r) = Some appid"
  by (auto simp: build_store_record_def fetch_store_meta_def Let_def store_record_keyed
      split: prod.splits sum.splits json.splits option.splits if_splits)

lemma build_spy_record_keyed:
  "build_spy_record rt appid w = (Inr r, w') \<Longrightarrow>
     r = JNull \<or> record_id (Parsed r) = Some appid"
  by (auto simp: build_spy_record_def fetch_spy_details_def Let_def record_of_id
      split: prod.splits sum.splits json.splits option.splits if_splits)

lemma traced_calls:
  "traced h (w, cs) appid = (res, (w', cs')) \<Longrightarrow> cs' = cs @ [appid]"
  by (auto simp: traced_def split: prod.splits)

lemma build_store_record_calls:
  assumes "http rt = traced h" "build_store_record rt appid (w, cs) = (res, (w', cs'))"
  shows "\<exists>fs. cs' = cs @ fs \<and> subseq fs [appid]"
proof (cases "within_digit_limit appid")
  case False
  then have "cs' = cs" using assms(2)
    by (auto simp: build_store_record_def fetch_store_meta_def)
  then show ?thesis by simp
next
  case True
  obtain r1 w1 cs1 where t: "traced h (w, cs) appid = (r1, (w1, cs1))"
    by (cases "traced h (w, cs) appid") auto
  have "cs' = cs1" using assms True t
    by (auto simp: build_store_record_def fetch_store_meta_def Let_def
        split: prod.splits sum.splits json.splits option.splits if_splits)
  then show ?thesis using traced_calls[OF t] by simp
qed

lemma build_spy_record_calls:
  assumes "http rt = traced h" "build_spy_record rt appid (w, cs) = (res, (w', cs'))"
  shows "\<exists>fs. cs' = cs @ fs \<and> subseq fs [appid]"
proof (cases "within_digit_limit appid")
  case False
  then have "cs' = cs" using assms(2)
    by (auto simp: build_spy_record_def fetch_spy_details_def)
  then show ?thesis by simp
next
  case True
  obtain r1 w1 cs1 where t: "traced h (w, cs) appid = (r1, (w1, cs1))"
    by (cases "traced h (w, cs) appid") auto
  have "cs' = cs1" using assms True t
    by (auto simp: build_spy_record_def fetch_spy_details_def Let_def
        split: prod.splits sum.splits json.splits option.splits if_splits)
  then show ?thesis using traced_calls[OF t] by simp
qed

text \<open>What the body of the \<^verbatim>\<open>try\<close> statement does to the state.\<close>

lemma try_body_cases:
  assumes "try_body rt st res = (st', c)"
  shows "(\<exists>e. res = Inl e \<and> st' = st \<and> c = Some e)
    \<or> (res = Inr JNull \<and> st' = st\<lparr>skip_count := skip_count st + 1\<rparr> \<and> c = None)
    \<or> (\<exists>r e. res = Inr r \<and> r \<noteq> JNull \<and> write_error rt r = Some e \<and> st' = st \<and> c = Some e)
    \<or> (\<exists>r. res = Inr r \<and> r \<noteq> JNull \<and> write_error rt r = None \<and> c = None
          \<and> st' = st\<lparr>written := written st @ [r], ok_count := ok_count st + 1\<rparr>)"
  using assms by (auto simp: try_body_def split: sum.splits option.splits if_splits)

lemma try_body_written:
  assumes "try_body rt st res = (st', c)"
  shows "\<exists>new. written st' = written st @ new \<and> ok_count st' = ok_count st + length new
    \<and> (new = [] \<or> (\<exists>r. new = [r] \<and> res = Inr r \<and> r \<noteq> JNull))"
  using try_body_cases[OF assms] by auto

lemma try_body_counts:
  assumes "try_body rt st res = (st', c)"
  shows "ok_count st' + skip_count st' + err_count st' + (if c = None then 0 else 1)
           = ok_count st + skip_count st + err_count st + 1"
  using try_body_cases[OF assms] by auto

lemma fetch_loop_step:
  assumes "build appid w = (res, w')" "try_body rt st res = (st', c)"
  shows "fetch_loop rt build (appid # rest) st w
    = (case c of
         None \<Rightarrow> fetch_loop rt build rest st' w'
       | Some e \<Rightarrow>
           (case err_log_error rt appid e of
              Some x \<Rightarrow> (Some x, st'\<lparr>err_count := err_count st' + 1\<rparr>, w')
            | None \<Rightarrow> fetch_loop rt build rest (st'\<lparr>err_count := err_count st' + 1\<rparr>) w'))"
  using assms by (simp split: option.splits)

text \<open>
  The loop, whatever the builder and the world make of each identifier: the records
  written are records of identifiers of the list, in the order of the list, one line for
  each \<open>ok\<close>, and the fetches made are fetches of identifiers of the list, in that order.
\<close>

lemma fetch_loop_trace:
  assumes keyed: "\<And>appid w r w'. build appid w = (Inr r, w') \<Longrightarrow>
      r = JNull \<or> record_id (Parsed r) = Some appid"
    and calls: "\<And>appid w cs res w' cs'. build appid (w, cs) = (res, (w', cs')) \<Longrightarrow>
      \<exists>fs. cs' = cs @ fs \<and> subseq fs [appid]"
  shows "\<exists>x st' w' fs new. fetch_loop rt build ids st (w, cs) = (x, st', (w', cs @ fs))
     \<and> subseq fs ids \<and> written st' = written st @ new
     \<and> ok_count st' = ok_count st + length new
     \<and> subseq (record_ids (map Parsed new)) ids"
proof (induction ids arbitrary: st w cs)
  case Nil
  then show ?case by (simp add: record_ids_def)
next
  case (Cons appid rest)
  obtain res w1 cs1 where b: "build appid (w, cs) = (res, (w1, cs1))"
    by (cases "build appid (w, cs)") auto
  obtain fs0 where fs0: "cs1 = cs @ fs0" "subseq fs0 [appid]"
    using calls[OF b] by blast
  obtain st1 c where t: "try_body rt st res = (st1, c)"
    by (cases "try_body rt st res") auto
  obtain n0 where n0: "written st1 = written st @ n0" "ok_count st1 = ok_count st + length n0"
      "n0 = [] \<or> (\<exists>r. n0 = [r] \<and> res = Inr r \<and> r \<noteq> JNull)"
    using try_body_written[OF t] by blast
  have id0: "subseq (record_ids (map Parsed n0)) [appid]"
  proof (cases "n0 = []")
    case True
    then show ?thesis by (simp add: record_ids_def)
  next
    case False
    then obtain r where r: "n0 = [r]" "res = Inr r" "r \<noteq> JNull" using n0(3) by auto
    then have "record_id (Parsed r) = Some appid" using keyed[of appid "(w, cs)" r "(w1, cs1)"] b by simp
    then show ?thesis using r by (simp add: record_ids_def)
  qed
  let ?st2 = "st1\<lparr>err_count := err_count st1 + 1\<rparr>"
  have stop: ?case if "fetch_loop rt build (appid # rest) st (w, cs) = (Some x, ?st2, (w1, cs1))" for x
    using that fs0 n0 id0
    by (intro exI[of _ "Some x"] exI[of _ ?st2] exI[of _ w1] exI[of _ fs0] exI[of _ n0])
      (simp add: subseq_single)
  have go: ?case if "fetch_loop rt build (appid # rest) st (w, cs) = fetch_loop rt build rest st' (w1, cs1)"
      "written st' = written st1" "ok_count st' = ok_count st1" for st'
  proof -
    obtain x st2 w2 fs1 n1 where ih:
      "fetch_loop rt build rest st' (w1, cs1) = (x, st2, (w2, cs1 @ fs1))"
      "subseq fs1 rest" "written st2 = written st' @ n1"
      "ok_count st2 = ok_count st' + length n1"
      "subseq (record_ids (map Parsed n1)) rest"
      using Cons.IH[of st' w1 cs1] by blast
    have "subseq (record_ids (map Parsed (n0 @ n1))) (appid # rest)"
      using subseq_step[OF id0 ih(5)] by (simp add: record_ids_append)
    then show ?thesis
      using that ih fs0 n0 subseq_step[OF fs0(2) ih(2)]
      by (intro exI[of _ x] exI[of _ st2] exI[of _ w2] exI[of _ "fs0 @ fs1"] exI[of _ "n0 @ n1"])
        (simp del: fetch_loop.simps)
  qed
  show ?case
  proof (cases c)
    case None
    then show ?thesis using go[of st1] fetch_loop_step[where build=build and appid=appid and rest=rest, OF b t] by simp
  next
    case (Some e)
    show ?thesis
    proof (cases "err_log_error rt appid e")
      case None
      then show ?thesis using go[of ?st2] fetch_loop_step[where build=build and appid=appid and rest=rest, OF b t] Some by simp
    next
      case (Some x)
      then show ?thesis using stop[of x] fetch_loop_step[where build=build and appid=appid and rest=rest, OF b t] \<open>c = Some e\<close> by simp
    qed
  qed
qed

text \<open>
  When the log line of the handler prints for every identifier and exception, the loop
  ends normally and has counted every identifier once.
\<close>

lemma fetch_loop_completes:
  assumes "\<And>appid e. err_log_error rt appid e = None"
  shows "fst (fetch_loop rt build ids st w) = None
    \<and> ok_count (fst (snd (fetch_loop rt build ids st w)))
        + skip_count (fst (snd (fetch_loop rt build ids st w)))
        + err_count (fst (snd (fetch_loop rt build ids st w)))
      = ok_count st + skip_count st + err_count st + length ids"
proof (induction ids arbitrary: st w)
  case Nil
  then show ?case by simp
next
  case (Cons appid rest)
  obtain res w1 where b: "build appid w = (res, w1)"
    by (cases "build appid w") auto
  obtain st1 c where t: "try_body rt st res = (st1, c)"
    by (cases "try_body rt st res") auto
  show ?case
  proof (cases c)
    case None
    then show ?thesis
      using Cons.IH[of st1 w1] fetch_loop_step[where build=build and appid=appid and rest=rest, OF b t] try_body_counts[OF t] by simp
  next
    case (Some e)
    then show ?thesis
      using Cons.IH[of "st1\<lparr>err_count := err_count st1 + 1\<rparr>" w1]
        fetch_loop_step[where build=build and appid=appid and rest=rest, OF b t] try_body_counts[OF t] assms[of appid e]
      by simp
  qed
qed

lemma glue_ids: "subseq (record_ids [glue l r]) (record_ids [l] @ record_ids [Parsed r])"
  by (cases l) (auto simp: glue_def record_ids_def map_filter_def)

lemma append_lines_ids:
  "subseq (record_ids (append_lines ls terminated rs)) (record_ids ls @ record_ids (map Parsed rs))"
proof (cases rs)
  case Nil
  then show ?thesis by (simp add: record_ids_def map_filter_def)
next
  case (Cons r rest)
  show ?thesis
  proof (cases "terminated \<or> ls = []")
    case True
    then show ?thesis using Cons by (simp add: record_ids_append)
  next
    case False
    then have ls: "ls = butlast ls @ [last ls]" by simp
    have "subseq (record_ids (butlast ls) @ record_ids [glue (last ls) r] @ record_ids (map Parsed rest))
        (record_ids (butlast ls) @ (record_ids [last ls] @ record_ids [Parsed r])
           @ record_ids (map Parsed rest))"
      using glue_ids[of "last ls" r] by (intro list_emb_append_mono) simp_all
    moreover have "record_ids ls = record_ids (butlast ls) @ record_ids [last ls]"
      using ls record_ids_append[of "butlast ls" "[last ls]"] by simp
    moreover have "record_ids (map Parsed (r # rest))
        = record_ids [Parsed r] @ record_ids (map Parsed rest)"
      using record_ids_append[of "[Parsed r]" "map Parsed rest"] by simp
    moreover have "record_ids (glue (last ls) r # map Parsed rest)
        = record_ids [glue (last ls) r] @ record_ids (map Parsed rest)"
      using record_ids_append[of "[glue (last ls) r]" "map Parsed rest"] by simp
    ultimately show ?thesis using Cons False by (simp add: record_ids_append)
  qed
qed

lemma load_done_ids:
  assumes "load_done_appids_from_jsonl out_file = Inr (done, warned)"
  shows "done = set (record_ids (lines_of out_file))"
proof (cases out_file)
  case Missing
  then show ?thesis using assms by (simp add: load_done_appids_from_jsonl_def record_ids_def)
next
  case Undecodable
  then show ?thesis using assms by (simp add: load_done_appids_from_jsonl_def)
next
  case (Lines ls)
  then have "scan_lines 1 ls {} [] = (done, warned)"
    using assms by (simp add: load_done_appids_from_jsonl_def)
  then show ?thesis using scan_lines_done[of 1 ls "{}" "[]"] Lines by simp
qed

lemma main_resume:
  assumes "\<not> nonpositive (interval a)" "0 < max_retries a" "0 < timeout a" "resume a"
    and "load_local_appids list_file = Inr all_appids"
    and "apply_index_range all_appids (start_index a) (end_index a) (top_n a) = Inr appids"
    and "load_done_appids_from_jsonl out_file = Inr (done, warned)"
    and "startup_error rt = None"
    and keyed: "\<And>appid w r w'. build appid w = (Inr r, w') \<Longrightarrow>
      r = JNull \<or> record_id (Parsed r) = Some appid"
    and calls: "\<And>appid w cs res w' cs'. build appid (w, cs) = (res, (w', cs')) \<Longrightarrow>
      \<exists>fs. cs' = cs @ fs \<and> subseq fs [appid]"
  shows "\<exists>r w' fetched.
       main rt build a list_file out_file terminated (w, cs) = Inr (r, (w', cs @ fetched))
     \<and> done = set (record_ids (lines_of out_file))
     \<and> pending r = filter (\<lambda>appid. appid \<notin> done) appids
     \<and> write_mode r = ''a''
     \<and> subseq fetched (pending r) \<and> set fetched \<inter> done = {}
     \<and> subseq (record_ids (map Parsed (written (final_state r)))) (pending r)
     \<and> file_after r = append_lines (lines_of out_file) terminated (written (final_state r))
     \<and> (distinct appids \<longrightarrow> distinct (record_ids (lines_of out_file)) \<longrightarrow>
           distinct (record_ids (file_after r)))"
proof -
  let ?pending = "filter (\<lambda>appid. appid \<notin> done) appids"
  let ?start = "\<lparr>written = [], ok_count = 0, skip_count = 0, err_count = 0\<rparr>"
  have "\<exists>x st' w' fs new. fetch_loop rt build ?pending ?start (w, cs) = (x, st', (w', cs @ fs))
     \<and> subseq fs ?pending \<and> written st' = written ?start @ new
     \<and> ok_count st' = ok_count ?start + length new
     \<and> subseq (record_ids (map Parsed new)) ?pending"
    by (rule fetch_loop_trace) (fact keyed, fact calls)
  then obtain x st w' fs new where
    loop: "fetch_loop rt build ?pending ?start (w, cs) = (x, st, (w', cs @ fs))"
    and tr: "subseq fs ?pending" "written st = written ?start @ new"
      "subseq (record_ids (map Parsed new)) ?pending"
    by blast
  let ?r = "\<lparr>pending = ?pending, write_mode = ''a'', final_state = st, raised = x,
             file_after = append_lines (lines_of out_file) terminated (written st)\<rparr>"
  have same: "(if done \<noteq> {} then ?pending else appids) = ?pending"
    by (auto intro: filter_True[symmetric])
  have "main rt build a list_file out_file terminated (w, cs)
      = (case fetch_loop rt build (if done \<noteq> {} then ?pending else appids) ?start (w, cs) of
           (x, st, w') \<Rightarrow>
             Inr (\<lparr>pending = (if done \<noteq> {} then ?pending else appids), write_mode = ''a'',
                   final_state = st, raised = x,
                   file_after = append_lines (lines_of out_file) terminated (written st)\<rparr>, w'))"
    using assms(1-8) by (simp add: main_def Let_def del: fetch_loop.simps split del: if_split)
  then have m: "main rt build a list_file out_file terminated (w, cs) = Inr (?r, (w', cs @ fs))"
    unfolding same using loop by simp
  have ids: "done = set (record_ids (lines_of out_file))"
    using load_done_ids[OF assms(7)] .
  have w: "written st = new" using tr(2) by simp
  have nocall: "set fs \<inter> done = {}" using subseq_subset[OF tr(1)] by auto
  have dist: "distinct (record_ids (append_lines (lines_of out_file) terminated new))"
    if d: "distinct appids" "distinct (record_ids (lines_of out_file))"
  proof -
    have "distinct ?pending" using d(1) by simp
    then have dn: "distinct (record_ids (map Parsed new))" using subseq_distinct[OF tr(3)] by simp
    have "set (record_ids (map Parsed new)) \<subseteq> set ?pending" using subseq_subset[OF tr(3)] .
    then have "set (record_ids (map Parsed new)) \<inter> set (record_ids (lines_of out_file)) = {}"
      using ids by auto
    then have "distinct (record_ids (lines_of out_file) @ record_ids (map Parsed new))"
      using dn d(2) by auto
    then show ?thesis
      using subseq_distinct[OF append_lines_ids[of "lines_of out_file" terminated new]] by simp
  qed
  show ?thesis
    using m ids tr(1,3) nocall dist w
    by (intro exI[of _ ?r] exI[of _ w'] exI[of _ fs]) simp
qed

lemmas run_eval =
  store_main_def spy_main_def main_def nonpositive_def scenario_args_def scenario_runtime_def
  scenario_source_def traced_def try_body_def glue_def load_local_appids_def
  apply_index_range_def load_done_appids_from_jsonl_def build_store_record_def
  build_spy_record_def fetch_store_meta_def fetch_spy_details_def store_record_def
  record_of_def str_or_empty_def py_str_def dict_get_def FIELD_BLACKLIST_def result_ids_def
  record_ids_def within_digit_limit_def Let_def

text \<open>
  Claim C1 (a failure for one identifier never ends the run), evaluated. For the
  identifier 40 the source answers with a page that is not JSON and holds a closing tag:
  \<^verbatim>\<open>http_get_json\<close> raises \<^verbatim>\<open>MarkupError\<close> from its log line, the handler of the loop counts
  the error and logs it, \<^verbatim>\<open>rich\<close> raises \<^verbatim>\<open>MarkupError\<close> again on that message, inside the
  handler, and the run ends there: the identifier 10, next in the list, is never fetched.
  An exception whose message prints is counted and the loop goes on (50, then 10). In the
  scenario of the claim (list \<open>[10, 20, 30]\<close>, success for 10 and 30, failure flag for 20)
  the output has exactly the two records keyed \<^verbatim>\<open>"10"\<close> and \<^verbatim>\<open>"30"\<close>, with ok = 2,
  skip = 1, err = 0.
\<close>

theorem fetch_run_aborts:
  "store_main scenario_runtime (scenario_args False) (Doc (JArr [JInt 40, JInt 10])) Missing True
       ((), [])
     = Inr (\<lparr>pending = [40, 10], write_mode = ''w'',
             final_state = \<lparr>written = [], ok_count = 0, skip_count = 0, err_count = 1\<rparr>,
             raised = Some MarkupError, file_after = []\<rparr>,
            ((), [40]))
   \<and> outcome (http_get_json exact store_url 2 tagged_env) = Inl MarkupError
   \<and> map_sum id (\<lambda>p. (raised (fst p), ok_count (final_state (fst p)),
          skip_count (final_state (fst p)), err_count (final_state (fst p)), snd p))
        (store_main scenario_runtime (scenario_args False) (Doc (JArr [JInt 50, JInt 10]))
           Missing True ((), []))
     = Inr (None, 1, 0, 1, ((), [50, 10]))
   \<and> store_main scenario_runtime (scenario_args False)
        (Doc (JArr [JInt 10, JInt 20, JInt 30])) Missing True ((), [])
     = Inr (\<lparr>pending = [10, 20, 30], write_mode = ''w'',
             final_state =
               \<lparr>written =
                  [JObj [(''10'',
                     JObj [(''appId'', JInt 10), (''name'', JStr ''Ten''),
                           (''releaseDate'', JStr ''2007-08-21''),
                           (''payload'',
                            JObj [(''success'', JBool True),
                                  (''data'',
                                   JObj [(''name'', JStr ''Ten''),
                                         (''release_date'',
                                          JObj [(''date'', JStr ''2007-08-21'')])])])])],
                   JObj [(''30'',
                     JObj [(''appId'', JInt 30), (''name'', JStr ''Thirty''),
                           (''releaseDate'', JStr ''''),
                           (''payload'',
                            JObj [(''success'', JBool True),
                                  (''data'', JObj [(''name'', JStr ''Thirty'')])])])]],
                ok_count = 2, skip_count = 1, err_count = 0\<rparr>,
             raised = None,
             file_after =
               [Parsed (JObj [(''10'',
                  JObj [(''appId'', JInt 10), (''name'', JStr ''Ten''),
                        (''releaseDate'', JStr ''2007-08-21''),
                        (''payload'',
                         JObj [(''success'', JBool True),
                               (''data'',
                                JObj [(''name'', JStr ''Ten''),
                                      (''release_date'',
                                       JObj [(''date'', JStr ''2007-08-21'')])])])])]),
                Parsed (JObj [(''30'',
                  JObj [(''appId'', JInt 30), (''name'', JStr ''Thirty''),
                        (''releaseDate'', JStr ''''),
                        (''payload'',
                         JObj [(''success'', JBool True),
                               (''data'', JObj [(''name'', JStr ''Thirty'')])])])])]\<rparr>,
            ((), [10, 20, 30]))"
proof -
  have a: "store_main scenario_runtime (scenario_args False) (Doc (JArr [JInt 40, JInt 10]))
       Missing True ((), [])
     = Inr (\<lparr>pending = [40, 10], write_mode = ''w'',
             final_state = \<lparr>written = [], ok_count = 0, skip_count = 0, err_count = 1\<rparr>,
             raised = Some MarkupError, file_after = []\<rparr>,
            ((), [40]))"
    by (simp add: run_eval str_eval MAX_STR_DIGITS_def)
  have b: "outcome (http_get_json exact store_url 2 tagged_env) = Inl MarkupError"
    by (simp add: fetch_eval within_digit_limit_def MAX_STR_DIGITS_def str_eval tagged_env_def)
  have c: "map_sum id (\<lambda>p. (raised (fst p), ok_count (final_state (fst p)),
          skip_count (final_state (fst p)), err_count (final_state (fst p)), snd p))
        (store_main scenario_runtime (scenario_args False) (Doc (JArr [JInt 50, JInt 10]))
           Missing True ((), []))
     = Inr (None, 1, 0, 1, ((), [50, 10]))"
    by (simp add: run_eval str_eval MAX_STR_DIGITS_def)
  show ?thesis
    using a b c by (simp add: run_eval str_eval MAX_STR_DIGITS_def)
qed

text \<open>
  Claim C2 as stated fails for an identifier list with a repeated identifier: resuming
  against no previous output fetches 10 twice, and the file ends with two records for it.
\<close>

theorem resume_duplicate_records:
  "result_ids (store_main scenario_runtime (scenario_args True) (Doc (JArr [JInt 10, JInt 10]))
      Missing True ((), [])) = Inr [10, 10]
   \<and> map_sum id snd (store_main scenario_runtime (scenario_args True)
      (Doc (JArr [JInt 10, JInt 10])) Missing True ((), [])) = Inr ((), [10, 10])
   \<and> \<not> distinct [10, 10 :: int]"
  by (simp add: run_eval str_eval int_eval)

text \<open>
  Claim C2, amended: in a resumed run of either script with valid settings, whose inputs
  load and whose first log lines print, the done-set is the set of the identifiers
  recorded in the existing output; the pending list is the selected list without the
  identifiers of the done-set, in the original order; the output is opened in append
  mode; the fetches of the run, as the world lists them, are fetches of pending
  identifiers in the order of the list, so no recorded identifier is fetched again, also
  when the run is cut short; the records written are records of pending identifiers; and
  when the identifier list has no duplicates and the existing output has no two records
  for one identifier, the file ends with at most one record for each identifier, whether
  or not the existing content ends with a line separator.
\<close>

theorem resume_run:
  assumes "\<not> nonpositive (interval a)" "0 < max_retries a" "0 < timeout a" "resume a"
    and "load_local_appids list_file = Inr all_appids"
    and "apply_index_range all_appids (start_index a) (end_index a) (top_n a) = Inr appids"
    and "load_done_appids_from_jsonl out_file = Inr (done, warned)"
    and "startup_error rt = None" "http rt = traced h"
    and "run = store_main rt \<or> run = spy_main rt"
  shows "\<exists>r w' fetched.
       run a list_file out_file terminated (w, cs) = Inr (r, (w', cs @ fetched))
     \<and> done = set (record_ids (lines_of out_file))
     \<and> pending r = filter (\<lambda>appid. appid \<notin> done) appids
     \<and> write_mode r = ''a''
     \<and> subseq fetched (pending r) \<and> set fetched \<inter> done = {}
     \<and> subseq (record_ids (map Parsed (written (final_state r)))) (pending r)
     \<and> file_after r = append_lines (lines_of out_file) terminated (written (final_state r))
     \<and> (distinct appids \<longrightarrow> distinct (record_ids (lines_of out_file)) \<longrightarrow>
           distinct (record_ids (file_after r)))"
proof -
  have store: "?thesis" if "run = store_main rt"
    unfolding that store_main_def
    by (rule main_resume[OF assms(1-8)])
      (rule build_store_record_keyed, assumption, rule build_store_record_calls[OF assms(9)])
  have spy: "?thesis" if "run = spy_main rt"
    unfolding that spy_main_def
    by (rule main_resume[OF assms(1-8)])
      (rule build_spy_record_keyed, assumption, rule build_spy_record_calls[OF assms(9)])
  show ?thesis using assms(10) store spy by blast
qed

theorem resume_run_witness:
  "\<not> nonpositive (interval (scenario_args True)) \<and> 0 < max_retries (scenario_args True)
   \<and> 0 < timeout (scenario_args True) \<and> resume (scenario_args True)
   \<and> load_local_appids (Doc (JArr [JInt 10, JInt 20, JInt 30])) = Inr [10, 20, 30]
   \<and> apply_index_range [10, 20, 30] (start_index (scenario_args True))
        (end_index (scenario_args True)) (top_n (scenario_args True)) = Inr [10, 20, 30]
   \<and> load_done_appids_from_jsonl (Lines [Parsed (JObj [(''10'', JObj [])]), Unparsable])
        = Inr ({10}, [2])
   \<and> startup_error scenario_runtime = None \<and> http scenario_runtime = traced scenario_source
   \<and> map_sum id (\<lambda>p. (pending (fst p), snd p))
        (store_main scenario_runtime (scenario_args True)
           (Doc (JArr [JInt 10, JInt 20, JInt 30]))
           (Lines [Parsed (JObj [(''10'', JObj [])]), Unparsable]) False ((), []))
      = Inr ([20, 30], ((), [20, 30]))
   \<and> result_ids (store_main scenario_runtime (scenario_args True)
        (Doc (JArr [JInt 10, JInt 20, JInt 30]))
        (Lines [Parsed (JObj [(''10'', JObj [])]), Unparsable]) False ((), [])) = Inr [10]
   \<and> result_ids (store_main scenario_runtime (scenario_args True)
        (Doc (JArr [JInt 10, JInt 20, JInt 30]))
        (Lines [Parsed (JObj [(''10'', JObj [])]), Blank]) False ((), [])) = Inr [10, 30]
   \<and> result_ids (store_main scenario_runtime (scenario_args True)
        (Doc (JArr [JInt 10, JInt 20, JInt 30]))
        (Lines [Parsed (JObj [(''10'', JObj [])]), Unparsable]) True ((), [])) = Inr [10, 30]
   \<and> result_ids (spy_main scenario_runtime (scenario_args True)
        (Doc (JArr [JInt 10, JInt 20, JInt 30]))
        (Lines [Parsed (JObj [(''10'', JObj [])]), Unparsable]) True ((), []))
      = Inr [10, 20, 30]"
  using resume_run[where a="scenario_args True"
      and list_file="Doc (JArr [JInt 10, JInt 20, JInt 30])"
      and all_appids="[10, 20, 30]" and appids="[10, 20, 30]"
      and out_file="Lines [Parsed (JObj [(''10'', JObj [])]), Unparsable]"
      and ?done="{10}" and warned="[2]" and rt=scenario_runtime and h=scenario_source
      and run="store_main scenario_runtime" and terminated=False and w="()" and cs="[]"]
  by (simp add: run_eval str_eval int_eval)


end
